theory Spec2Isabelle
  imports Main "HOL-Library.Word" "HOL-Library.List_Lexorder"
begin

section \<open>Python string operations used by the modules\<close>

text \<open>
  Strings are byte strings (\<open>char list\<close>).  The functions below are the
  \<open>str\<close> methods that \<open>module_utils/pip.py\<close> and the two modules call.
\<close>

text \<open>\<open>s.startswith(p)\<close>.\<close>

definition startswith :: "string \<Rightarrow> string \<Rightarrow> bool" where
  "startswith s p = (take (length p) s = p)"

text \<open>\<open>s.endswith(p)\<close>.\<close>

definition endswith :: "string \<Rightarrow> string \<Rightarrow> bool" where
  "endswith s p = (length p \<le> length s \<and> drop (length s - length p) s = p)"

text \<open>\<open>sub in s\<close> for strings.\<close>

fun str_in :: "string \<Rightarrow> string \<Rightarrow> bool" where
  "str_in sub [] = (sub = [])"
| "str_in sub (c # cs) = (startswith (c # cs) sub \<or> str_in sub cs)"

text \<open>
  \<open>s.split(sep)\<close> for a non-empty separator: a scan from the left that cuts at
  every occurrence of \<open>sep\<close> and resumes after it, so occurrences do not
  overlap.  (Python raises ValueError for an empty separator; the source only
  passes the literals \<open>","\<close>, \<open>"=="\<close>, \<open>" "\<close>, \<open>"\n"\<close> and \<open>"/"\<close>.)
\<close>

fun split :: "string \<Rightarrow> string \<Rightarrow> string list" where
  "split sep [] = [[]]"
| "split sep (c # cs) =
     (if sep \<noteq> [] \<and> startswith (c # cs) sep
      then [] # split sep (drop (length sep) (c # cs))
      else (let r = split sep cs in (c # hd r) # tl r))"

text \<open>\<open>s.count(sep)\<close>: the number of non-overlapping occurrences.\<close>

fun count_str :: "string \<Rightarrow> string \<Rightarrow> nat" where
  "count_str sep [] = 0"
| "count_str sep (c # cs) =
     (if sep \<noteq> [] \<and> startswith (c # cs) sep
      then Suc (count_str sep (drop (length sep) (c # cs)))
      else count_str sep cs)"

text \<open>\<open>sep.join(xs)\<close>.\<close>

fun join :: "string \<Rightarrow> string list \<Rightarrow> string" where
  "join sep [] = []"
| "join sep [x] = x"
| "join sep (x # y # ys) = x @ sep @ join sep (y # ys)"

text \<open>
  \<open>c.isspace()\<close> on the ASCII range, as Python 3 reports it: tab, line feed,
  vertical tab, form feed, carriage return, the four separators 28 to 31 and
  the blank.
\<close>

definition isspace :: "char \<Rightarrow> bool" where
  "isspace c = (let n = of_char c :: nat in (9 \<le> n \<and> n \<le> 13) \<or> (28 \<le> n \<and> n \<le> 32))"

text \<open>\<open>s.lstrip()\<close>, \<open>s.strip()\<close> and \<open>s.split()\<close> (cut at runs of whitespace).\<close>

definition lstrip :: "string \<Rightarrow> string" where
  "lstrip s = dropWhile isspace s"

definition strip :: "string \<Rightarrow> string" where
  "strip s = rev (dropWhile isspace (rev (dropWhile isspace s)))"

fun words_from :: "string \<Rightarrow> string \<Rightarrow> string list" where
  "words_from acc [] = (if acc = [] then [] else [rev acc])"
| "words_from acc (c # cs) =
     (if isspace c then (if acc = [] then words_from [] cs else rev acc # words_from [] cs)
      else words_from (c # acc) cs)"

definition split_ws :: "string \<Rightarrow> string list" where
  "split_ws s = words_from [] s"

text \<open>\<open>c.isdigit()\<close> and \<open>s.lower()\<close> on ASCII.\<close>

definition isdigit :: "char \<Rightarrow> bool" where
  "isdigit c = (let n = of_char c :: nat in 48 \<le> n \<and> n \<le> 57)"

definition lower_char :: "char \<Rightarrow> char" where
  "lower_char c = (let n = of_char c :: nat in if 65 \<le> n \<and> n \<le> 90 then char_of (n + 32) else c)"

definition lower :: "string \<Rightarrow> string" where
  "lower s = map lower_char s"


section \<open>module\_utils/pip.py: recovering package names\<close>

text \<open>The keys of \<open>op_dict\<close>, in the order of the dictionary literal.\<close>

definition op_keys :: "string list" where
  "op_keys = [''>='', ''<='', ''>'', ''<'', ''=='', ''!='', ''~='']"

text \<open>\<open>_is_package_name(name)\<close>.\<close>

definition is_package_name :: "string \<Rightarrow> bool" where
  "is_package_name name = (\<not> list_ex (startswith (lstrip name)) op_keys)"

text \<open>
  The second loop of \<open>_recover_package_name\<close>, with its two accumulators
  \<open>name_parts\<close> and \<open>package_names\<close>; the last equation is the append after
  the loop.
\<close>

fun reconstruct :: "string list \<Rightarrow> string list \<Rightarrow> string list \<Rightarrow> string list" where
  "reconstruct name_parts package_names [] = package_names @ [join '','' name_parts]"
| "reconstruct name_parts package_names (name # names) =
     (if is_package_name name
      then (if name_parts \<noteq> []
            then reconstruct [name] (package_names @ [join '','' name_parts]) names
            else reconstruct [name] package_names names)
      else reconstruct (name_parts @ [name]) package_names names)"

text \<open>\<open>_recover_package_name(names)\<close>: flatten on commas, then regroup.\<close>

definition recover_package_name :: "string list \<Rightarrow> string list" where
  "recover_package_name names = reconstruct [] [] (concat (map (split '','') names))"


section \<open>Versions and requirements\<close>

text \<open>The Python exceptions that the modelled code can raise.\<close>

datatype pyerr =
  ValueError | AttributeError | TypeError | KeyError | IndexError | OverflowError | NameError

subsection \<open>distutils.version.LooseVersion\<close>

text \<open>
  \<open>LooseVersion.parse\<close> cuts the version string with the pattern
  \<open>(\d+ | [a-z]+ | \.)\<close>: maximal runs of digits, maximal runs of lower-case
  letters, single dots, and the text in between.  Empty pieces and dots are
  dropped and the digit runs are converted with \<open>int\<close>.
\<close>

datatype component = Num nat | Txt string

definition islower_az :: "char \<Rightarrow> bool" where
  "islower_az c = (let n = of_char c :: nat in 97 \<le> n \<and> n \<le> 122)"

definition char_class :: "char \<Rightarrow> nat" where
  "char_class c = (if isdigit c then 0 else if islower_az c then 1 else 2)"

fun components_from :: "string \<Rightarrow> string \<Rightarrow> string list" where
  "components_from acc [] = (if acc = [] then [] else [rev acc])"
| "components_from acc (c # cs) =
     (if c = CHR ''.'' then (if acc = [] then [] else [rev acc]) @ components_from [] cs
      else if acc \<noteq> [] \<and> char_class (hd acc) \<noteq> char_class c
      then rev acc # components_from [c] cs
      else components_from (c # acc) cs)"

definition digit_val :: "char \<Rightarrow> nat" where
  "digit_val c = of_char c - 48"

definition int_of_digits :: "string \<Rightarrow> nat" where
  "int_of_digits s = foldl (\<lambda>n c. 10 * n + digit_val c) 0 s"

definition to_component :: "string \<Rightarrow> component" where
  "to_component s = (if s \<noteq> [] \<and> list_all isdigit s then Num (int_of_digits s) else Txt s)"

text \<open>
  \<open>LooseVersion(vstring)\<close>: the constructor parses only a non-empty string, so
  the object built from \<open>""\<close> has no \<open>version\<close> attribute (\<open>None\<close> here).
\<close>

definition LooseVersion :: "string \<Rightarrow> component list option" where
  "LooseVersion vstring =
     (if vstring = [] then None else Some (map to_component (components_from [] vstring)))"

text \<open>Comparison of two byte strings by code point, as Python compares \<open>str\<close>.\<close>

fun str_less :: "string \<Rightarrow> string \<Rightarrow> bool" where
  "str_less [] [] = False"
| "str_less [] (y # ys) = True"
| "str_less (x # xs) [] = False"
| "str_less (x # xs) (y # ys) =
     (if x = y then str_less xs ys else (of_char x :: nat) < of_char y)"

text \<open>
  The three-way comparison of the two \<open>version\<close> lists (\<open>_cmp\<close> on Python 3,
  \<open>__cmp__\<close> on Python 2): the first position where the lists differ decides.
  Python 2 orders every number before every string; Python 3 raises TypeError
  when a number meets a string there.
\<close>

fun cmp_components :: "bool \<Rightarrow> component list \<Rightarrow> component list \<Rightarrow> pyerr + int" where
  "cmp_components py3 [] [] = Inr 0"
| "cmp_components py3 [] (y # ys) = Inr (- 1)"
| "cmp_components py3 (x # xs) [] = Inr 1"
| "cmp_components py3 (x # xs) (y # ys) =
     (if x = y then cmp_components py3 xs ys
      else (case (x, y) of
              (Num a, Num b) \<Rightarrow> Inr (if a < b then - 1 else 1)
            | (Txt a, Txt b) \<Rightarrow> Inr (if str_less a b then - 1 else 1)
            | (Num a, Txt b) \<Rightarrow> (if py3 then Inl TypeError else Inr (- 1))
            | (Txt a, Num b) \<Rightarrow> (if py3 then Inl TypeError else Inr 1)))"

definition cmp_versions ::
  "bool \<Rightarrow> component list option \<Rightarrow> component list option \<Rightarrow> pyerr + int" where
  "cmp_versions py3 a b =
     (case a of None \<Rightarrow> Inl AttributeError
      | Some x \<Rightarrow> (case b of None \<Rightarrow> Inl AttributeError
                   | Some y \<Rightarrow> cmp_components py3 x y))"

subsection \<open>op\_dict\<close>

text \<open>
  \<open>op_dict\<close> maps each operator to a function of \<open>operator\<close>; on LooseVersion
  values each of them is a test on the three-way comparison.  The last entry
  is the source's: \<open>"~="\<close> is \<open>operator.ge\<close>.
\<close>

definition op_dict :: "(string \<times> (int \<Rightarrow> bool)) list" where
  "op_dict = [(''>='', \<lambda>c. c \<ge> 0), (''<='', \<lambda>c. c \<le> 0), (''>'', \<lambda>c. c > 0),
              (''<'', \<lambda>c. c < 0), (''=='', \<lambda>c. c = 0), (''!='', \<lambda>c. c \<noteq> 0),
              (''~='', \<lambda>c. c \<ge> 0)]"

subsection \<open>The Package class\<close>

text \<open>
  \<open>pkg_resources.Requirement\<close> is a third-party class.  A requirement carries
  the attributes the source reads: \<open>project_name\<close>, \<open>specs\<close>, its string
  form, and \<open>specifier.contains\<close>, which old setuptools does not have
  (\<open>None\<close>).
\<close>

record requirement =
  project_name :: string
  specs :: "(string \<times> string) list"
  specifier :: "(string \<Rightarrow> bool) option"
  req_str :: string

record package =
  plain_package :: bool
  package_name :: string
  requirement :: "requirement option"

text \<open>
  The expression \<open>Requirement.parse(name_string)\<close> in \<open>module_utils/pip.py\<close>.
  The file binds \<open>os\<close>, \<open>sys\<close>, \<open>operator\<close>, \<open>re\<close>, \<open>LooseVersion\<close>,
  \<open>to_native\<close>, \<open>is_executable\<close> and \<open>PY3\<close> (lines 7 to 15) and never binds
  \<open>Requirement\<close>: the two modules import it from \<open>pkg_resources\<close> into their
  own namespaces, the helper library does not.  Looking the name up raises
  NameError before anything is parsed.
\<close>

definition Requirement_parse :: "string \<Rightarrow> pyerr + requirement" where
  "Requirement_parse s = Inl NameError"

text \<open>
  Lines 261 to 264 of \<open>Package.__init__\<close>: the string that is parsed.  A
  version of blanks only has no first character.
\<close>

definition joined_name :: "string \<Rightarrow> string option \<Rightarrow> pyerr + string" where
  "joined_name name_string version_string =
     (case version_string of
        None \<Rightarrow> Inr name_string
      | Some v \<Rightarrow>
          if v = [] then Inr name_string
          else (let v' = lstrip v in
                if v' = [] then Inl IndexError
                else Inr (join (if isdigit (hd v') then ''=='' else '' '') [name_string, v'])))"

text \<open>
  \<open>Package.__init__(name_string, version_string=None)\<close>.  The \<open>try\<close> statement
  catches ValueError only, and keeps \<open>name_string\<close> as the package name then.
\<close>

definition Package :: "string \<Rightarrow> string option \<Rightarrow> pyerr + package" where
  "Package name_string version_string =
     (case joined_name name_string version_string of
        Inl e \<Rightarrow> Inl e
      | Inr joined \<Rightarrow>
          (case Requirement_parse joined of
             Inl e \<Rightarrow>
               if e = ValueError
               then Inr \<lparr>plain_package = False, package_name = name_string, requirement = None\<rparr>
               else Inl e
           | Inr r \<Rightarrow>
               Inr \<lparr>plain_package = True,
                    package_name = (if project_name r = ''distribute'' then ''setuptools''
                                    else project_name r),
                    requirement = Some r\<rparr>))"

text \<open>\<open>Package.has_version_specifier\<close>.\<close>

definition has_version_specifier :: "package \<Rightarrow> bool" where
  "has_version_specifier p =
     (if plain_package p then (case requirement p of None \<Rightarrow> False | Some r \<Rightarrow> specs r \<noteq> [])
      else False)"

text \<open>
  The fallback of \<open>is_satisfied_by\<close>: \<open>all(op_dict[op](v, LooseVersion(ver)) for
  op, ver in specs)\<close>, which stops at the first false test.
\<close>

fun all_specs ::
  "bool \<Rightarrow> component list option \<Rightarrow> (string \<times> string) list \<Rightarrow> pyerr + bool" where
  "all_specs py3 v [] = Inr True"
| "all_specs py3 v ((op, ver) # rest) =
     (case map_of op_dict op of
        None \<Rightarrow> Inl KeyError
      | Some f \<Rightarrow>
          (case cmp_versions py3 v (LooseVersion ver) of
             Inl e \<Rightarrow> Inl e
           | Inr c \<Rightarrow> if f c then all_specs py3 v rest else Inr False))"

text \<open>\<open>Package.is_satisfied_by(version_to_test)\<close>.\<close>

definition is_satisfied_by :: "bool \<Rightarrow> package \<Rightarrow> string \<Rightarrow> pyerr + bool" where
  "is_satisfied_by py3 p version_to_test =
     (if \<not> plain_package p then Inr False
      else (case requirement p of
              None \<Rightarrow> Inl AttributeError
            | Some r \<Rightarrow>
                (case specifier r of
                   Some contains \<Rightarrow> Inr (contains version_to_test)
                 | None \<Rightarrow> all_specs py3 (LooseVersion version_to_test) (specs r))))"

text \<open>\<open>Package.__str__\<close>.\<close>

definition package_str :: "package \<Rightarrow> string" where
  "package_str p =
     (case requirement p of
        Some r \<Rightarrow> if plain_package p then req_str r else package_name p
      | None \<Rightarrow> package_name p)"

subsection \<open>\_is\_present\<close>

text \<open>
  The \<open>req\<close> argument is a \<open>Package\<close> in the pip module and the plain string
  \<open>'pipenv'\<close> in the pipenv module; a string has neither \<open>package_name\<close> nor
  \<open>is_satisfied_by\<close>.
\<close>

datatype req_arg = ReqStr string | ReqPackage package

definition req_package_name :: "req_arg \<Rightarrow> pyerr + string" where
  "req_package_name req =
     (case req of ReqStr s \<Rightarrow> Inl AttributeError | ReqPackage p \<Rightarrow> Inr (package_name p))"

definition req_is_satisfied_by :: "bool \<Rightarrow> req_arg \<Rightarrow> string \<Rightarrow> pyerr + bool" where
  "req_is_satisfied_by py3 req v =
     (case req of ReqStr s \<Rightarrow> Inl AttributeError | ReqPackage p \<Rightarrow> is_satisfied_by py3 p v)"

text \<open>
  \<open>_is_present(module, req, installed_pkgs)\<close>.  The two-name unpacking of
  \<open>pkg.split('==')\<close> raises ValueError unless the split has exactly two parts.
\<close>

fun is_present :: "bool \<Rightarrow> req_arg \<Rightarrow> string list \<Rightarrow> pyerr + bool" where
  "is_present py3 req [] = Inr False"
| "is_present py3 req (pkg # installed_pkgs) =
     (if str_in ''=='' pkg
      then (case split ''=='' pkg of
              [pkg_name, pkg_version] \<Rightarrow>
                (case req_package_name req of
                   Inl e \<Rightarrow> Inl e
                 | Inr n \<Rightarrow>
                     if lower pkg_name = n
                     then (case req_is_satisfied_by py3 req pkg_version of
                             Inl e \<Rightarrow> Inl e
                           | Inr ok \<Rightarrow> if ok then Inr True else is_present py3 req installed_pkgs)
                     else is_present py3 req installed_pkgs)
            | _ \<Rightarrow> Inl ValueError)
      else is_present py3 req installed_pkgs)"


text \<open>
  Two predicates on one line of the listing, used to state what \<open>_is_present\<close>
  does: the line is the match that makes the loop return True, or the loop
  steps over it (no \<open>==\<close>, or exactly two parts that do not match, without an
  exception).
\<close>

definition entry_matches :: "bool \<Rightarrow> req_arg \<Rightarrow> string \<Rightarrow> bool" where
  "entry_matches py3 req pkg =
     (str_in ''=='' pkg \<and>
      (case split ''=='' pkg of
         [n, v] \<Rightarrow> req_package_name req = Inr (lower n) \<and> req_is_satisfied_by py3 req v = Inr True
       | _ \<Rightarrow> False))"

definition entry_passes :: "bool \<Rightarrow> req_arg \<Rightarrow> string \<Rightarrow> bool" where
  "entry_passes py3 req pkg =
     (\<not> str_in ''=='' pkg \<or>
      (case split ''=='' pkg of
         [n, v] \<Rightarrow> (case req_package_name req of
                      Inl e \<Rightarrow> False
                    | Inr m \<Rightarrow> lower n \<noteq> m \<or> req_is_satisfied_by py3 req v = Inr False)
       | _ \<Rightarrow> False))"

text \<open>Iterating over the tuple \<open>(command, out, err)\<close> yields its three items.\<close>

definition tuple_items :: "string \<times> string \<times> string \<Rightarrow> string list" where
  "tuple_items t = (case t of (command, out, err) \<Rightarrow> [command, out, err])"


section \<open>The process, the host and the module interface\<close>

subsection \<open>Paths\<close>

text \<open>\<open>os.path.join\<close>, \<open>os.path.isabs\<close> and \<open>os.path.basename\<close> of posixpath.\<close>

definition path_join2 :: "string \<Rightarrow> string \<Rightarrow> string" where
  "path_join2 a b =
     (if startswith b ''/'' then b
      else if a = [] \<or> endswith a ''/'' then a @ b
      else a @ ''/'' @ b)"

definition path_join :: "string \<Rightarrow> string list \<Rightarrow> string" where
  "path_join a p = foldl path_join2 a p"

definition isabs :: "string \<Rightarrow> bool" where
  "isabs s = startswith s ''/''"

definition basename :: "string \<Rightarrow> string" where
  "basename p = last (split ''/'' p)"

subsection \<open>Commands and the process state\<close>

text \<open>
  \<open>run_command\<close> takes a shell string or an argument list, and the keyword
  arguments \<open>cwd\<close>, \<open>environ_update\<close> and \<open>path_prefix\<close>.
\<close>

datatype cmd = Shell string | Argv "string list"

record call =
  cmd :: cmd
  cwd :: "string option"
  environ_update :: "(string \<times> string) list"
  path_prefix :: "string option"

text \<open>
  The state of the module's process that the claims speak about: the
  commands run so far (oldest first), the umask (the kernel keeps nine bits)
  and \<open>os.environ\<close>.
\<close>

record proc =
  trace :: "call list"
  cur_umask :: "9 word"
  os_environ :: "string \<rightharpoonup> string"

text \<open>
  The target host, as far as the modules observe it.  Every answer may depend
  on the commands run before it.  \<open>HAS_SETUPTOOLS\<close> is the outcome of the
  modules' own import of \<open>pkg_resources\<close>, \<open>int8\<close> is \<open>int(s, 8)\<close> and
  \<open>shlex_split\<close> is \<open>shlex.split\<close>; \<open>None\<close> is their ValueError.
\<close>

record world =
  PY3 :: bool
  HAS_SETUPTOOLS :: bool
  respond :: "call list \<Rightarrow> call \<Rightarrow> int \<times> string \<times> string"
  bin_path :: "call list \<Rightarrow> string \<Rightarrow> string list \<Rightarrow> string option"
  path_exists :: "call list \<Rightarrow> string \<Rightarrow> bool"
  is_executable :: "call list \<Rightarrow> string \<Rightarrow> bool"
  tempdir :: string
  sys_executable :: string
  int8 :: "string \<Rightarrow> int option"
  shlex_split :: "string \<Rightarrow> string list option"

text \<open>
  How control leaves \<open>main\<close>: \<open>exit_json\<close> and \<open>fail_json\<close> raise SystemExit,
  anything else is an uncaught exception.  The keyword arguments that only
  echo module parameters (\<open>name\<close>, \<open>version\<close>, \<open>state\<close>, \<open>requirements\<close>,
  \<open>virtualenv\<close>, \<open>path\<close>) and \<open>details\<close> are left out.
\<close>

record exit_info =
  changed :: bool
  exit_cmd :: "cmd option"
  stdout :: "string option"
  stderr :: "string option"
  warnings :: "string list"

datatype exit = ExitJson exit_info | FailJson string "cmd option" | Raise pyerr

text \<open>An action runs on the process state and either leaves \<open>main\<close> or yields a value.\<close>

type_synonym 'a action = "proc \<Rightarrow> (exit + 'a) \<times> proc"

definition ret :: "'a \<Rightarrow> 'a action" where
  "ret x = (\<lambda>s. (Inr x, s))"

definition and_then :: "'a action \<Rightarrow> ('a \<Rightarrow> 'b action) \<Rightarrow> 'b action" where
  "and_then m f = (\<lambda>s. case m s of (Inl e, s') \<Rightarrow> (Inl e, s') | (Inr x, s') \<Rightarrow> f x s')"

definition raise :: "pyerr \<Rightarrow> 'a action" where
  "raise e = (\<lambda>s. (Inl (Raise e), s))"

definition lift :: "pyerr + 'a \<Rightarrow> 'a action" where
  "lift r = (case r of Inl e \<Rightarrow> raise e | Inr x \<Rightarrow> ret x)"

text \<open>\<open>try: body finally: fin\<close>.\<close>

definition try_finally :: "'a action \<Rightarrow> unit action \<Rightarrow> 'a action" where
  "try_finally body fin =
     (\<lambda>s. case body s of
             (r, s') \<Rightarrow> (case fin s' of (Inl e, s'') \<Rightarrow> (Inl e, s'') | (Inr u, s'') \<Rightarrow> (r, s'')))"

text \<open>
  Modelled from the spec: the methods of AnsibleModule (module\_utils/basic.py
  is not among the sources).  \<open>exit_json\<close> and \<open>fail_json\<close> report to the
  calling host and end the run.  \<open>run_command\<close> runs one subprocess and
  captures its exit code, stdout and stderr; whatever it sets in the
  environment for the child it restores, so the umask and \<open>os.environ\<close> of
  the module's process are as before.  \<open>get_bin_path\<close> looks an executable
  up and, when it is required and missing, fails.
\<close>

definition exit_json :: "exit_info \<Rightarrow> 'a action" where
  "exit_json info = (\<lambda>s. (Inl (ExitJson info), s))"

definition fail_json :: "string \<Rightarrow> cmd option \<Rightarrow> 'a action" where
  "fail_json msg c = (\<lambda>s. (Inl (FailJson msg c), s))"

definition run_command :: "world \<Rightarrow> call \<Rightarrow> (int \<times> string \<times> string) action" where
  "run_command w c = (\<lambda>s. (Inr (respond w (trace s) c), s\<lparr>trace := trace s @ [c]\<rparr>))"

definition get_bin_path :: "world \<Rightarrow> string \<Rightarrow> bool \<Rightarrow> string list \<Rightarrow> string option action" where
  "get_bin_path w arg required opt_dirs =
     (\<lambda>s. case bin_path w (trace s) arg opt_dirs of
             Some p \<Rightarrow> (Inr (Some p), s)
           | None \<Rightarrow>
               if required
               then (Inl (FailJson (''Failed to find required executable '' @ arg) None), s)
               else (Inr None, s))"

text \<open>
  \<open>os.umask(mask)\<close> sets the umask and returns the old one; the argument must
  fit a C int.  \<open>os.environ[key] = value\<close>.
\<close>

definition os_umask :: "int \<Rightarrow> int action" where
  "os_umask m =
     (\<lambda>s. if m < - (2 ^ 31) \<or> 2 ^ 31 \<le> m then (Inl (Raise OverflowError), s)
          else (Inr (uint (cur_umask s)), s\<lparr>cur_umask := word_of_int m\<rparr>))"

definition set_environ :: "string \<Rightarrow> string \<Rightarrow> unit action" where
  "set_environ key val = (\<lambda>s. (Inr (), s\<lparr>os_environ := (os_environ s)(key \<mapsto> val)\<rparr>))"

definition os_path_exists :: "world \<Rightarrow> string \<Rightarrow> bool action" where
  "os_path_exists w p = (\<lambda>s. (Inr (path_exists w (trace s) p), s))"

definition host_is_executable :: "world \<Rightarrow> string \<Rightarrow> bool action" where
  "host_is_executable w p = (\<lambda>s. (Inr (is_executable w (trace s) p), s))"

text \<open>The truth value of an optional string (\<open>if env:\<close>), and the plain call of a command.\<close>

definition truthy :: "string option \<Rightarrow> bool" where
  "truthy x = (case x of None \<Rightarrow> False | Some s \<Rightarrow> s \<noteq> [])"

definition plain_call :: "cmd \<Rightarrow> call" where
  "plain_call c = \<lparr>cmd = c, cwd = None, environ_update = [], path_prefix = None\<rparr>"

subsection \<open>Module parameters\<close>

datatype state_choice = Present | Absent | Latest | Forcereinstall

text \<open>
  \<open>module.params\<close> of both modules (the pipenv module reads \<open>path\<close>,
  \<open>virtualenv\<close> and its options, \<open>chdir\<close>, \<open>executable\<close> and \<open>umask\<close>), and
  \<open>module.check_mode\<close>.
\<close>

record params =
  state :: state_choice
  name :: "string list option"
  version :: "string option"
  requirements :: "string option"
  virtualenv :: "string option"
  virtualenv_site_packages :: bool
  virtualenv_command :: string
  virtualenv_python :: "string option"
  extra_args :: "string option"
  editable :: bool
  chdir :: "string option"
  executable :: "string option"
  umask :: "string option"
  path :: string
  check_mode :: bool

definition state_map :: "state_choice \<Rightarrow> string list" where
  "state_map st =
     (case st of
        Present \<Rightarrow> [''install'']
      | Absent \<Rightarrow> [''uninstall'', ''-y'']
      | Latest \<Rightarrow> [''install'', ''-U'']
      | Forcereinstall \<Rightarrow> [''install'', ''-U'', ''--force-reinstall''])"



section \<open>module\_utils/pip.py: the helpers that run commands\<close>

text \<open>\<open>_fail(module, cmd, out, err)\<close>.\<close>

definition fail_msg :: "string \<Rightarrow> string \<Rightarrow> string" where
  "fail_msg out err =
     (if out \<noteq> [] then ''stdout: '' @ out else []) @
     (if err \<noteq> [] then ''\<newline>:stderr: '' @ err else [])"

definition pip_fail :: "cmd \<Rightarrow> string \<Rightarrow> string \<Rightarrow> 'a action" where
  "pip_fail c out err = fail_json (fail_msg out err) (Some c)"

text \<open>\<open>_is_vcs_url(name)\<close>: a match of \<open>(svn|git|hg|bzr)\+\<close> at the start.\<close>

definition is_vcs_url :: "string \<Rightarrow> bool" where
  "is_vcs_url n = list_ex (startswith n) [''svn+'', ''git+'', ''hg+'', ''bzr+'']"

text \<open>\<open>_get_cmd_options(module, cmd)\<close>.\<close>

definition help_failure_msg :: "string \<Rightarrow> string \<Rightarrow> string \<Rightarrow> string" where
  "help_failure_msg thiscmd out err = ''Could not get output from '' @ thiscmd @ '': '' @ out @ err"

definition get_cmd_options :: "world \<Rightarrow> string \<Rightarrow> string list action" where
  "get_cmd_options w c =
     (let thiscmd = c @ '' --help'' in
      and_then (run_command w (plain_call (Shell thiscmd))) (\<lambda>(rc, out, err).
        if rc \<noteq> 0
        then fail_json (help_failure_msg thiscmd out err) None
        else ret (filter (\<lambda>x. startswith x ''--'') (split_ws (strip out)))))"

text \<open>\<open>_get_packages(module, pip, chdir)\<close>.\<close>

definition lang_env :: "(string \<times> string) list" where
  "lang_env = [(''LANG'', ''C''), (''LC_ALL'', ''C''), (''LC_MESSAGES'', ''C'')]"

definition list_call :: "string \<Rightarrow> string \<Rightarrow> call" where
  "list_call pip dir =
     \<lparr>cmd = Shell (pip @ '' list --format=freeze''), cwd = Some dir,
      environ_update = lang_env, path_prefix = None\<rparr>"

definition freeze_call :: "string \<Rightarrow> string \<Rightarrow> call" where
  "freeze_call pip dir =
     \<lparr>cmd = Shell (pip @ '' freeze''), cwd = Some dir, environ_update = [], path_prefix = None\<rparr>"

definition get_packages :: "world \<Rightarrow> string \<Rightarrow> string \<Rightarrow> (string \<times> string \<times> string) action" where
  "get_packages w pip dir =
     and_then (run_command w (list_call pip dir)) (\<lambda>(rc, out, err).
       if rc \<noteq> 0
       then and_then (run_command w (freeze_call pip dir)) (\<lambda>(rc, out, err).
              if rc \<noteq> 0 then pip_fail (Shell (pip @ '' freeze'')) out err
              else ret (pip @ '' freeze'', out, err))
       else ret (pip @ '' list --format=freeze'', out, err))"

text \<open>
  \<open>_get_pip(module, env, executable)\<close>.  The two \<open>for ... else\<close> loops are
  \<open>first_bin_path\<close> and \<open>first_in_venv\<close>; \<open>None\<close> is the loop that ends
  without \<open>break\<close>.
\<close>

fun first_bin_path :: "world \<Rightarrow> string list \<Rightarrow> string option action" where
  "first_bin_path w [] = ret None"
| "first_bin_path w (b # bs) =
     and_then (get_bin_path w b False []) (\<lambda>pip.
       if pip \<noteq> None then ret pip else first_bin_path w bs)"

fun first_in_venv :: "world \<Rightarrow> string \<Rightarrow> string list \<Rightarrow> string option action" where
  "first_in_venv w venv_dir [] = ret None"
| "first_in_venv w venv_dir (b # bs) =
     (let candidate = path_join venv_dir [b] in
      and_then (os_path_exists w candidate) (\<lambda>ex.
        and_then (if ex then host_is_executable w candidate else ret False) (\<lambda>ok.
          if ok then ret (Some candidate) else first_in_venv w venv_dir bs)))"

definition get_pip :: "world \<Rightarrow> string option \<Rightarrow> string option \<Rightarrow> string action" where
  "get_pip w env exe =
     (let candidate_pip_basenames = (if PY3 w then [''pip3''] else [''pip2'', ''pip'']);
          pip = (case exe of Some e \<Rightarrow> if isabs e then Some e else None | None \<Rightarrow> None);
          candidate_pip_basenames =
            (case exe of Some e \<Rightarrow> if isabs e then candidate_pip_basenames else [e]
             | None \<Rightarrow> candidate_pip_basenames)
      in case pip of
           Some p \<Rightarrow> ret p
         | None \<Rightarrow>
             (case env of
                None \<Rightarrow>
                  and_then (first_bin_path w candidate_pip_basenames) (\<lambda>found.
                    case found of
                      Some p \<Rightarrow> ret p
                    | None \<Rightarrow>
                        fail_json (''Unable to find any of '' @ join '', '' candidate_pip_basenames
                                   @ '' to use.  pip needs to be installed.'') None)
              | Some e \<Rightarrow>
                  (let venv_dir = path_join e [''bin''];
                       candidate_pip_basenames = [hd candidate_pip_basenames, ''pip'']
                   in and_then (first_in_venv w venv_dir candidate_pip_basenames) (\<lambda>found.
                        case found of
                          Some p \<Rightarrow> ret p
                        | None \<Rightarrow>
                            fail_json (''Unable to find pip in the virtualenv, '' @ e @ '', ''
                                       @ ''under any of these names: ''
                                       @ join '', '' candidate_pip_basenames @ ''. ''
                                       @ ''Make sure pip is present in the virtualenv.'') None))))"

text \<open>\<open>_get_package_info(module, package, env)\<close> and \<open>_SPECIAL_PACKAGE_CHECKERS\<close>.\<close>

definition special_package_checker :: "string \<Rightarrow> string" where
  "special_package_checker package =
     (if package = ''setuptools'' then ''import setuptools; print(setuptools.__version__)''
      else ''import pkg_resources; print(pkg_resources.get_distribution('' @ [CHR 0x22]
           @ ''pip'' @ [CHR 0x22] @ '').version)'')"

definition get_package_info :: "world \<Rightarrow> string \<Rightarrow> string option \<Rightarrow> string option action" where
  "get_package_info w package env =
     (let opt_dirs = (if truthy env then [the env @ ''/bin''] else []) in
      and_then (get_bin_path w ''python'' False opt_dirs) (\<lambda>python_bin.
        case python_bin of
          None \<Rightarrow> ret None
        | Some py \<Rightarrow>
            and_then (run_command w (plain_call (Argv [py, ''-c'', special_package_checker package])))
              (\<lambda>(rc, out, err).
                 if rc \<noteq> 0 then ret None else ret (Some (package @ ''=='' @ strip out)))))"

text \<open>\<open>setup_virtualenv(module, env, chdir, out, err)\<close>.\<close>

definition setup_virtualenv ::
  "world \<Rightarrow> params \<Rightarrow> string \<Rightarrow> string \<Rightarrow> string \<Rightarrow> string \<Rightarrow> (string \<times> string) action" where
  "setup_virtualenv w ps env dir out err =
     (if check_mode ps
      then exit_json \<lparr>changed = True, exit_cmd = None, stdout = None, stderr = None, warnings = []\<rparr>
      else
        and_then (if basename (virtualenv_command ps) = virtualenv_command ps
                  then and_then (get_bin_path w (virtualenv_command ps) True []) (\<lambda>p. ret (the p))
                  else ret (virtualenv_command ps)) (\<lambda>c.
        and_then (if virtualenv_site_packages ps then ret (c @ '' --system-site-packages'')
                  else and_then (get_cmd_options w c) (\<lambda>cmd_opts.
                         if ''--no-site-packages'' \<in> set cmd_opts
                         then ret (c @ '' --no-site-packages'') else ret c)) (\<lambda>c.
        and_then (if \<not> list_ex (\<lambda>ex. str_in ex (virtualenv_command ps)) [''pyvenv'', ''-m venv'']
                  then (if truthy (virtualenv_python ps)
                        then ret (c @ '' -p'' @ the (virtualenv_python ps))
                        else if PY3 w then ret (c @ '' -p'' @ sys_executable w)
                        else ret c)
                  else if truthy (virtualenv_python ps)
                  then fail_json (''virtualenv_python should not be used when''
                                  @ '' using the venv module or pyvenv as virtualenv_command'') None
                  else ret c) (\<lambda>c.
        (let c = c @ '' '' @ env in
         and_then (run_command w \<lparr>cmd = Shell c, cwd = Some dir, environ_update = [],
                                   path_prefix = None\<rparr>) (\<lambda>(rc, out_venv, err_venv).
           (let out = out @ out_venv; err = err @ err_venv in
            if rc \<noteq> 0 then pip_fail (Shell c) out err else ret (out, err))))))))"



section \<open>modules/packaging/language/pip.py: main\<close>

text \<open>A list comprehension whose element expression may raise.\<close>

fun map_action :: "('a \<Rightarrow> 'b action) \<Rightarrow> 'a list \<Rightarrow> 'b list action" where
  "map_action f [] = ret []"
| "map_action f (x # xs) =
     and_then (f x) (\<lambda>y. and_then (map_action f xs) (\<lambda>ys. ret (y # ys)))"

text \<open>A word between single quotes, as the messages of the module write it.\<close>

definition quoted :: "string \<Rightarrow> string" where
  "quoted s = [CHR 0x27] @ s @ [CHR 0x27]"

text \<open>
  Lines 345 to 360: the packages named by \<open>name\<close>, and the check of \<open>version\<close>
  against them.
\<close>

definition pip_packages :: "params \<Rightarrow> string list \<Rightarrow> package list action" where
  "pip_packages ps names =
     and_then (map_action (\<lambda>pkg. lift (Package pkg None))
                 (recover_package_name names)) (\<lambda>packages.
       case version ps of
         None \<Rightarrow> ret packages
       | Some v \<Rightarrow>
           if length packages > 1
           then fail_json (quoted ''version''
                           @ '' argument is ambiguous when installing multiple package ''
                           @ ''distributions. Please specify version restrictions next to each ''
                           @ ''package in '' @ quoted ''name'' @ '' argument.'') None
           else (case packages of
                   [] \<Rightarrow> raise IndexError
                 | p # rest \<Rightarrow>
                     if has_version_specifier p
                     then fail_json (''The '' @ quoted ''version''
                                     @ '' argument conflicts with any version specifier ''
                                     @ ''provided along with a package name. Please keep the version ''
                                     @ ''specifier, but remove the '' @ quoted ''version''
                                     @ '' argument.'') None
                     else and_then (lift (Package (package_name p) (Some v)))
                            (\<lambda>p'. ret (p' # rest))))"

text \<open>Lines 362 to 369: the \<open>-e\<close> option for \<open>editable\<close>.\<close>

definition pip_extra_args :: "params \<Rightarrow> string option" where
  "pip_extra_args ps =
     (if editable ps
      then (let args_list = (if truthy (extra_args ps) then split '' '' (the (extra_args ps))
                             else [])
            in if ''-e'' \<notin> set args_list then Some (join '' '' (args_list @ [''-e'']))
               else extra_args ps)
      else extra_args ps)"

text \<open>Lines 401 to 406: the special packages that \<open>pip freeze\<close> does not list.\<close>

fun special_packages ::
  "world \<Rightarrow> string list \<Rightarrow> string option \<Rightarrow> string list \<Rightarrow> string list \<times> string
     \<Rightarrow> (string list \<times> string) action" where
  "special_packages w names env [] acc = ret acc"
| "special_packages w names env (pkg # rest) acc =
     (if pkg \<in> set names
      then and_then (get_package_info w pkg env) (\<lambda>formatted_dep.
             case formatted_dep of
               None \<Rightarrow> special_packages w names env rest acc
             | Some d \<Rightarrow>
                 special_packages w names env rest (fst acc @ [d], snd acc @ d @ ''\<newline>''))
      else special_packages w names env rest acc)"

text \<open>Lines 408 to 412: the loop over the packages, which stops at the first change.\<close>

fun any_change :: "bool \<Rightarrow> state_choice \<Rightarrow> package list \<Rightarrow> string list \<Rightarrow> pyerr + bool" where
  "any_change py3 st [] pkg_list = Inr False"
| "any_change py3 st (p # rest) pkg_list =
     (case is_present py3 (ReqPackage p) pkg_list of
        Inl e \<Rightarrow> Inl e
      | Inr present \<Rightarrow>
          if (st = Present \<and> \<not> present) \<or> (st = Absent \<and> present) then Inr True
          else any_change py3 st rest pkg_list)"

text \<open>Lines 384 to 413: check mode.\<close>

definition pip_check_mode ::
  "world \<Rightarrow> params \<Rightarrow> string option \<Rightarrow> string \<Rightarrow> string \<Rightarrow> package list \<Rightarrow> string option
     \<Rightarrow> string \<Rightarrow> string \<Rightarrow> unit action" where
  "pip_check_mode w ps env dir pip packages extra out err =
     (let names = (case name ps of None \<Rightarrow> [] | Some ns \<Rightarrow> ns) in
      if truthy extra \<or> truthy (requirements ps) \<or> state ps = Latest \<or> names = []
      then exit_json \<lparr>changed = True, exit_cmd = None, stdout = None, stderr = None, warnings = []\<rparr>
      else
        and_then (get_packages w pip dir) (\<lambda>(pkg_cmd, out_pip, err_pip).
          (let out = out @ out_pip; err = err @ err_pip;
               pkg_list = filter (\<lambda>p. \<not> startswith p ''You are using''
                                      \<and> \<not> startswith p ''You should consider'' \<and> p \<noteq> [])
                            (split ''\<newline>'' out)
           in and_then (if endswith pkg_cmd '' freeze''
                             \<and> (''pip'' \<in> set names \<or> ''setuptools'' \<in> set names)
                        then special_packages w names env [''setuptools'', ''pip''] (pkg_list, out)
                        else ret (pkg_list, out)) (\<lambda>(pkg_list, out).
                and_then (lift (any_change (PY3 w) (state ps) packages pkg_list)) (\<lambda>chg.
                  exit_json \<lparr>changed = chg, exit_cmd = Some (Shell pkg_cmd), stdout = Some out,
                             stderr = Some err, warnings = []\<rparr>)))))"

text \<open>Lines 415 to 441: the install or uninstall run and its report.\<close>

definition pip_install ::
  "world \<Rightarrow> params \<Rightarrow> string \<Rightarrow> string \<Rightarrow> string list \<Rightarrow> string option \<Rightarrow> bool \<Rightarrow> bool
     \<Rightarrow> string \<Rightarrow> string \<Rightarrow> unit action" where
  "pip_install w ps dir pip c prefix has_vcs venv_created out err =
     and_then (if truthy (requirements ps) \<or> has_vcs
               then and_then (get_packages w pip dir) (\<lambda>(x, out_freeze, y). ret (Some out_freeze))
               else ret None) (\<lambda>out_freeze_before.
     and_then (run_command w \<lparr>cmd = Argv c, cwd = Some dir, environ_update = [],
                               path_prefix = prefix\<rparr>) (\<lambda>(rc, out_pip, err_pip).
       (let out = out @ out_pip; err = err @ err_pip in
        if \<not> (rc = 1 \<and> state ps = Absent
               \<and> (str_in ''not installed'' out_pip \<or> str_in ''not installed'' err_pip))
           \<and> rc \<noteq> 0
        then pip_fail (Argv c) out err
        else
          and_then (if state ps = Absent then ret (str_in ''Successfully uninstalled'' out_pip)
                    else (case out_freeze_before of
                            None \<Rightarrow> ret (str_in ''Successfully installed'' out_pip)
                          | Some before \<Rightarrow>
                              and_then (get_packages w pip dir) (\<lambda>(x, out_freeze_after, y).
                                ret (before \<noteq> out_freeze_after)))) (\<lambda>chg.
            exit_json \<lparr>changed = chg \<or> venv_created, exit_cmd = Some (Argv c),
                       stdout = Some out, stderr = Some err, warnings = []\<rparr>))))"

text \<open>Lines 317 to 320 (and 216 to 219 of the pipenv module): the virtualenv is set up when
  its \<open>bin/activate\<close> is missing.\<close>

definition ensure_virtualenv ::
  "world \<Rightarrow> params \<Rightarrow> string option \<Rightarrow> string \<Rightarrow> (bool \<times> string \<times> string) action" where
  "ensure_virtualenv w ps env dir =
     (if truthy env
      then and_then (os_path_exists w (path_join (the env) [''bin'', ''activate''])) (\<lambda>ex.
             if \<not> ex
             then and_then (setup_virtualenv w ps (the env) dir [] []) (\<lambda>(out, err).
                    ret (True, out, err))
             else ret (False, [], []))
      else ret (False, [], []))"

text \<open>Lines 307 to 441: the body of the \<open>try\<close> statement.\<close>

definition pip_body :: "world \<Rightarrow> params \<Rightarrow> string option \<Rightarrow> unit action" where
  "pip_body w ps env =
     (if state ps = Latest \<and> version ps \<noteq> None
      then fail_json ''version is incompatible with state=latest'' None
      else
        (let dir = (case chdir ps of None \<Rightarrow> tempdir w | Some d \<Rightarrow> d);
             names = (case name ps of None \<Rightarrow> [] | Some ns \<Rightarrow> ns)
         in
         and_then (ensure_virtualenv w ps env dir) (\<lambda>(venv_created, out, err).
         and_then (get_pip w env (executable ps)) (\<lambda>pip.
           (let c = [pip] @ state_map (state ps);
                prefix = (if truthy env then Some (join ''/'' (butlast (split ''/'' pip))) else None);
                has_vcs = list_ex (\<lambda>pkg. pkg \<noteq> [] \<and> is_vcs_url pkg) names
            in
            and_then (if names \<noteq> [] then pip_packages ps names else ret []) (\<lambda>packages.
              (let extra = pip_extra_args ps in
               and_then (if truthy extra
                         then (case shlex_split w (the extra) of
                                 None \<Rightarrow> raise ValueError
                               | Some xs \<Rightarrow> ret (c @ xs))
                         else ret c) (\<lambda>c.
               and_then (if names \<noteq> [] then ret (c @ map package_str packages)
                         else if truthy (requirements ps)
                         then ret (c @ [''-r'', the (requirements ps)])
                         else exit_json \<lparr>changed = False, exit_cmd = None, stdout = None,
                                         stderr = None,
                                         warnings = [''No valid name or requirements file found.'']\<rparr>)
                 (\<lambda>c.
                   if check_mode ps
                   then pip_check_mode w ps env dir pip packages extra out err
                   else pip_install w ps dir pip c prefix has_vcs venv_created out err)))))))))"

text \<open>
  Lines 296 to 305 (197 to 206 of the pipenv module): the \<open>umask\<close> parameter is
  parsed as an octal number and installed; the old umask is kept for the
  \<open>finally\<close> clause.  An empty string is passed to \<open>os.umask\<close> as it is, which
  raises TypeError.
\<close>

definition apply_umask :: "world \<Rightarrow> params \<Rightarrow> int option action" where
  "apply_umask w ps =
     (case umask ps of
        None \<Rightarrow> ret None
      | Some u \<Rightarrow>
          if u = [] then raise TypeError
          else (case int8 w u of
                  None \<Rightarrow> fail_json ''umask must be an octal integer'' None
                | Some m \<Rightarrow> and_then (os_umask m) (\<lambda>old. ret (Some old))))"

definition restore_umask :: "int option \<Rightarrow> unit action" where
  "restore_umask old_umask =
     (case old_umask of None \<Rightarrow> ret () | Some old \<Rightarrow> and_then (os_umask old) (\<lambda>x. ret ()))"

definition effective_env :: "params \<Rightarrow> string option" where
  "effective_env ps =
     (if truthy (virtualenv ps) \<and> truthy (chdir ps)
      then Some (path_join (the (chdir ps)) [the (virtualenv ps)])
      else virtualenv ps)"

text \<open>\<open>main()\<close> of the pip module, after the construction of the AnsibleModule.\<close>

definition pip_main :: "world \<Rightarrow> params \<Rightarrow> unit action" where
  "pip_main w ps =
     (if \<not> HAS_SETUPTOOLS w
      then fail_json ''No setuptools found in remote host, please install it first.'' None
      else and_then (apply_umask w ps) (\<lambda>old_umask.
             try_finally (pip_body w ps (effective_env ps)) (restore_umask old_umask)))"


section \<open>modules/packaging/language/pipenv.py: main\<close>

text \<open>\<open>has_changes(module, lockfile, pip)\<close>.\<close>

definition has_changes :: "string \<Rightarrow> string \<Rightarrow> bool" where
  "has_changes lockfile pip = True"

text \<open>
  \<open>_get_pipenv(module, env, executable)\<close>.  \<open>os.path.abspath\<close> of a non-empty
  string is a non-empty string, so a given \<open>executable\<close> is returned as it is.
\<close>

definition get_pipenv :: "world \<Rightarrow> string option \<Rightarrow> string option \<Rightarrow> string action" where
  "get_pipenv w env exe =
     (if truthy env then ret (path_join (the env) [''bin/pipenv''])
      else if truthy exe then ret (the exe)
      else and_then (get_bin_path w ''pipenv'' False []) (\<lambda>p.
             case p of
               None \<Rightarrow> fail_json (''Unable to find '' @ join '', '' (map (\<lambda>ch. [ch]) ''pipenv'')
                                  @ ''. pipenv needs to be installed.'') None
             | Some x \<Rightarrow> ret x))"

text \<open>Lines 224 to 232: pipenv is installed into the virtualenv when the check finds none.\<close>

definition pipenv_install_pipenv ::
  "world \<Rightarrow> bool \<Rightarrow> string option \<Rightarrow> string \<Rightarrow> string \<Rightarrow> (bool \<times> string \<times> string) action" where
  "pipenv_install_pipenv w present env out err =
     (if \<not> present \<and> truthy env
      then and_then (run_command w (plain_call (Argv [''pip'', ''install'', ''pipenv''])))
             (\<lambda>(rc, out_pip, err_pip).
                (let out = out @ out_pip; err = err @ err_pip in
                 if rc \<noteq> 0 then pip_fail (Argv [''pip'', ''install'', ''pipenv'']) out err
                 else ret (True, out, err)))
      else ret (False, out, err))"

text \<open>Lines 234 to 252: \<open>pipenv sync\<close> and the report.\<close>

definition pipenv_sync ::
  "world \<Rightarrow> params \<Rightarrow> string option \<Rightarrow> string \<Rightarrow> bool \<Rightarrow> bool \<Rightarrow> string \<Rightarrow> string
     \<Rightarrow> unit action" where
  "pipenv_sync w ps env pip venv_created pipenv_installed out err =
     (if has_changes (path_join (path ps) [''Pipfile.lock'']) pip
      then
        and_then (get_pipenv w env (executable ps)) (\<lambda>pipenv.
        and_then (if truthy env then set_environ ''VIRTUAL_ENV'' (the env) else ret ()) (\<lambda>u.
        and_then (run_command w \<lparr>cmd = Argv [pipenv, ''sync''], cwd = Some (path ps),
                                  environ_update = [], path_prefix = None\<rparr>)
          (\<lambda>(rc, out_pipenv, err_pipenv).
             (let out = out @ out_pipenv; err = err @ err_pipenv in
              if rc \<noteq> 0 then pip_fail (Argv [pipenv, ''sync'']) out err
              else exit_json \<lparr>changed = venv_created \<or> pipenv_installed \<or> True,
                              exit_cmd = Some (Argv [pipenv, ''sync'']), stdout = Some out,
                              stderr = Some err, warnings = []\<rparr>))))
      else exit_json \<lparr>changed = venv_created \<or> pipenv_installed \<or> False, exit_cmd = None,
                      stdout = Some out, stderr = Some err, warnings = []\<rparr>)"

text \<open>Lines 209 to 252: the body of the \<open>try\<close> statement.\<close>

definition pipenv_body :: "world \<Rightarrow> params \<Rightarrow> string option \<Rightarrow> unit action" where
  "pipenv_body w ps env =
     (let dir = (case chdir ps of None \<Rightarrow> tempdir w | Some d \<Rightarrow> d) in
      and_then (ensure_virtualenv w ps env dir) (\<lambda>(venv_created, out, err).
      and_then (get_pip w env (Some dir)) (\<lambda>pip.
      and_then (get_packages w pip dir) (\<lambda>packages.
      and_then (lift (is_present (PY3 w) (ReqStr ''pipenv'') (tuple_items packages))) (\<lambda>present.
      and_then (pipenv_install_pipenv w present env out err) (\<lambda>(pipenv_installed, out, err).
        pipenv_sync w ps env pip venv_created pipenv_installed out err))))))"

text \<open>\<open>main()\<close> of the pipenv module, after the construction of the AnsibleModule.\<close>

definition pipenv_main :: "world \<Rightarrow> params \<Rightarrow> unit action" where
  "pipenv_main w ps =
     (if \<not> HAS_SETUPTOOLS w
      then fail_json ''No setuptools found in remote host, please install it first.'' None
      else and_then (apply_umask w ps) (\<lambda>old_umask.
             try_finally (pipenv_body w ps (effective_env ps)) (restore_umask old_umask)))"

text \<open>
  The run of the pipenv module up to the listing.  \<open>pipenv_listing\<close> is lines
  209 to 222, the steps of the \<open>try\<close> statement that end with
  \<open>packages = _get_packages(module, pip, chdir)\<close>, and \<open>pipenv_main_listing\<close>
  is \<open>main()\<close> from its start to that line; the value is the tuple
  \<open>(command, out, err)\<close> bound to \<open>packages\<close>.
\<close>

definition pipenv_listing ::
  "world \<Rightarrow> params \<Rightarrow> string option \<Rightarrow> (string \<times> string \<times> string) action" where
  "pipenv_listing w ps env =
     (let dir = (case chdir ps of None \<Rightarrow> tempdir w | Some d \<Rightarrow> d) in
      and_then (ensure_virtualenv w ps env dir) (\<lambda>(venv_created, out, err).
      and_then (get_pip w env (Some dir)) (\<lambda>pip.
        get_packages w pip dir)))"

definition pipenv_main_listing :: "world \<Rightarrow> params \<Rightarrow> (string \<times> string \<times> string) action" where
  "pipenv_main_listing w ps =
     (if \<not> HAS_SETUPTOOLS w
      then fail_json ''No setuptools found in remote host, please install it first.'' None
      else and_then (apply_umask w ps) (\<lambda>old_umask. pipenv_listing w ps (effective_env ps)))"



section \<open>Predicates used to state and prove the properties\<close>

text \<open>
  The relation between the process state before and after an action: the
  umask is the same, and \<open>os.environ\<close> is the same or, when \<open>v\<close> is \<open>Some e\<close>,
  differs by \<open>VIRTUAL_ENV\<close> set to \<open>e\<close>.
\<close>

definition env_rel :: "string option \<Rightarrow> proc \<Rightarrow> proc \<Rightarrow> bool" where
  "env_rel v s s' =
     (cur_umask s' = cur_umask s \<and>
      (os_environ s' = os_environ s \<or>
       (case v of None \<Rightarrow> False | Some e \<Rightarrow> os_environ s' = (os_environ s)(''VIRTUAL_ENV'' \<mapsto> e))))"

text \<open>How an action ended: with a value (\<open>None\<close>) or by leaving \<open>main\<close>.\<close>

definition ending :: "exit + 'a \<Rightarrow> exit option" where
  "ending r = (case r of Inl e \<Rightarrow> Some e | Inr x \<Rightarrow> None)"

text \<open>
  \<open>acts v Q m\<close>: from every state, \<open>m\<close> appends the commands it runs to the
  trace, respects \<open>env_rel v\<close>, and the commands run before, the commands it
  ran and its ending satisfy \<open>Q\<close>.
\<close>

definition acts ::
  "string option \<Rightarrow> (call list \<Rightarrow> call list \<Rightarrow> exit option \<Rightarrow> bool) \<Rightarrow> 'a action \<Rightarrow> bool" where
  "acts v Q m =
     (\<forall>s. \<exists>ys. trace (snd (m s)) = trace s @ ys \<and> env_rel v s (snd (m s)) \<and>
             Q (trace s) ys (ending (fst (m s))))"

text \<open>\<open>only v C E m\<close>: every command that \<open>m\<close> runs satisfies \<open>C\<close>, and every way in
  which it leaves \<open>main\<close> satisfies \<open>E\<close>.\<close>

definition only :: "string option \<Rightarrow> (call \<Rightarrow> bool) \<Rightarrow> (exit \<Rightarrow> bool) \<Rightarrow> 'a action \<Rightarrow> bool" where
  "only v C E m =
     acts v (\<lambda>h ys r. list_all C ys \<and> (case r of Some e \<Rightarrow> E e | None \<Rightarrow> True)) m"

text \<open>A command given to the shell as one string.\<close>

definition is_shell :: "call \<Rightarrow> bool" where
  "is_shell c = (case cmd c of Shell sh \<Rightarrow> True | Argv a \<Rightarrow> False)"

text \<open>The report of \<open>setup_virtualenv\<close> in check mode.\<close>

definition venv_check_exit :: exit where
  "venv_check_exit =
     ExitJson \<lparr>changed = True, exit_cmd = None, stdout = None, stderr = None, warnings = []\<rparr>"

text \<open>A run that ends in failure: \<open>fail_json\<close> or an uncaught exception.\<close>

definition is_failure :: "exit \<Rightarrow> bool" where
  "is_failure e = (case e of ExitJson info \<Rightarrow> False | FailJson msg c \<Rightarrow> True | Raise x \<Rightarrow> True)"


section \<open>Example hosts and parameters\<close>

text \<open>
  A host on which every command succeeds and prints nothing, every path
  exists and every executable is found; the same host with an old pip, whose
  \<open>list\<close> command fails; and the same host without any file.
\<close>

definition example_host :: world where
  "example_host =
     \<lparr>PY3 = True, HAS_SETUPTOOLS = True, respond = (\<lambda>h c. (0, [], [])),
      bin_path = (\<lambda>h n d. Some (''/usr/bin/'' @ n)), path_exists = (\<lambda>h p. True),
      is_executable = (\<lambda>h p. True), tempdir = ''/tmp'', sys_executable = ''/usr/bin/python3'',
      int8 = (\<lambda>s. Some 18), shlex_split = (\<lambda>s. Some [s])\<rparr>"

definition old_pip_host :: world where
  "old_pip_host =
     example_host\<lparr>respond :=
       (\<lambda>h c. if cmd c = Shell ''/usr/bin/pip3 list --format=freeze''
              then (1, [], ''no such option: --format'') else (0, [], []))\<rparr>"

definition empty_host :: world where
  "empty_host = example_host\<lparr>path_exists := (\<lambda>h p. False)\<rparr>"

text \<open>A host on which every command prints one line of a listing, \<open>pipenv==2018.7.1\<close>.\<close>

definition pipenv_host :: world where
  "pipenv_host = example_host\<lparr>respond := (\<lambda>h c. (0, ''pipenv==2018.7.1\<newline>'', []))\<rparr>"

definition example_start :: proc where
  "example_start = \<lparr>trace = [], cur_umask = 18, os_environ = Map.empty\<rparr>"

definition example_params :: params where
  "example_params =
     \<lparr>state = Present, name = None, version = None, requirements = None,
      virtualenv = None, virtualenv_site_packages = False, virtualenv_command = ''virtualenv'',
      virtualenv_python = None, extra_args = None, editable = False, chdir = None,
      executable = None, umask = None, path = ''/proj'', check_mode = False\<rparr>"


text \<open>\<open>ends v C E m\<close>: every command that \<open>m\<close> runs satisfies \<open>C\<close>, and \<open>m\<close> always
  leaves \<open>main\<close>, in a way that satisfies \<open>E\<close>.\<close>

definition ends :: "string option \<Rightarrow> (call \<Rightarrow> bool) \<Rightarrow> (exit \<Rightarrow> bool) \<Rightarrow> 'a action \<Rightarrow> bool" where
  "ends v C E m =
     acts v (\<lambda>h ys r. list_all C ys \<and> (case r of Some e \<Rightarrow> E e | None \<Rightarrow> False)) m"


text \<open>
  The install and uninstall commands: an argument list whose second item is
  \<open>install\<close> or \<open>uninstall\<close> (\<open>[pip] + state_map[state] + ...\<close> in the pip module,
  \<open>['pip', 'install', 'pipenv']\<close> in the pipenv module); and \<open>[pipenv, 'sync']\<close>.
\<close>

definition is_pip_action :: "call \<Rightarrow> bool" where
  "is_pip_action c =
     (case cmd c of
        Shell sh \<Rightarrow> False
      | Argv a \<Rightarrow> (case a of
                    p # x # rest \<Rightarrow> x = ''install'' \<or> x = ''uninstall''
                  | _ \<Rightarrow> False))"

definition is_sync :: "call \<Rightarrow> bool" where
  "is_sync c = (case cmd c of Shell sh \<Rightarrow> False | Argv a \<Rightarrow> (case a of [p, x] \<Rightarrow> x = ''sync'' | _ \<Rightarrow> False))"

text \<open>The query of a special package: \<open>[python_bin, '-c', code]\<close>.\<close>

definition is_special_query :: "call \<Rightarrow> bool" where
  "is_special_query c =
     (case cmd c of Shell sh \<Rightarrow> False | Argv a \<Rightarrow> (case a of [p, x, code] \<Rightarrow> x = ''-c'' | _ \<Rightarrow> False))"

text \<open>\<open>at_most v n P m\<close>: \<open>m\<close> runs at most \<open>n\<close> commands that satisfy \<open>P\<close>.\<close>

definition at_most :: "string option \<Rightarrow> nat \<Rightarrow> (call \<Rightarrow> bool) \<Rightarrow> 'a action \<Rightarrow> bool" where
  "at_most v n P m = acts v (\<lambda>h ys r. length (filter P ys) \<le> n) m"


text \<open>
  The invocations whose nonzero exit code the modules do not report: the
  first attempt at the listing (\<open>pip list --format=freeze\<close>, which falls back to
  \<open>pip freeze\<close>), the query of a special package (whose failure means "not
  installed"), and, for \<open>state=absent\<close>, an uninstall that exits with 1 and says
  \<open>not installed\<close>.
\<close>

definition is_list_query :: "call \<Rightarrow> bool" where
  "is_list_query c =
     (case cmd c of Shell sh \<Rightarrow> endswith sh '' list --format=freeze'' | Argv a \<Rightarrow> False)"

definition exempt :: "bool \<Rightarrow> call \<Rightarrow> int \<Rightarrow> string \<Rightarrow> string \<Rightarrow> bool" where
  "exempt absent c rc out err =
     (is_list_query c \<or> is_special_query c \<or>
      (absent \<and> is_pip_action c \<and> rc = 1 \<and>
       (str_in ''not installed'' out \<or> str_in ''not installed'' err)))"

text \<open>
  \<open>forwarded w absent h c r\<close>: the command \<open>c\<close>, run after the commands \<open>h\<close>,
  succeeded or is exempt, or the run ended with \<open>fail_json\<close> and a message that
  contains the stdout and the stderr of \<open>c\<close>.
\<close>

definition forwarded :: "world \<Rightarrow> bool \<Rightarrow> call list \<Rightarrow> call \<Rightarrow> exit option \<Rightarrow> bool" where
  "forwarded w absent h c r =
     (case respond w h c of
        (rc, out, err) \<Rightarrow>
          rc = 0 \<or> exempt absent c rc out err \<or>
          (case r of
             Some (FailJson msg k) \<Rightarrow> str_in out msg \<and> str_in err msg
           | _ \<Rightarrow> False))"

definition fwd :: "string option \<Rightarrow> world \<Rightarrow> bool \<Rightarrow> 'a action \<Rightarrow> bool" where
  "fwd v w absent m =
     acts v (\<lambda>h ys r. \<forall>i<length ys. forwarded w absent (h @ take i ys) (ys ! i) r) m"


text \<open>The result of a step is \<open>fail_json\<close> with a message that contains \<open>out\<close> and \<open>err\<close>,
  and the step has run nothing more.\<close>

definition reports_failure :: "string \<Rightarrow> string \<Rightarrow> (exit + 'a) \<times> proc \<Rightarrow> proc \<Rightarrow> bool" where
  "reports_failure out err res s =
     (case fst res of
        Inl (FailJson msg k) \<Rightarrow> snd res = s \<and> str_in out msg \<and> str_in err msg
      | _ \<Rightarrow> False)"


text \<open>A host on which every install or uninstall command fails.\<close>

definition failing_host :: world where
  "failing_host =
     example_host\<lparr>respond :=
       (\<lambda>h c. if is_pip_action c then (2, ''Collecting a'', ''No matching distribution'')
              else (0, [], []))\<rparr>"


text \<open>A way out of \<open>main\<close> that does not report a change.\<close>

definition unchanged_exit :: "exit \<Rightarrow> bool" where
  "unchanged_exit e = (case e of ExitJson info \<Rightarrow> \<not> changed info | FailJson msg c \<Rightarrow> True | Raise x \<Rightarrow> True)"



section \<open>Properties of the string operations\<close>

lemma join_Cons: "ys \<noteq> [] \<Longrightarrow> join sep (x # ys) = x @ sep @ join sep ys"
  by (cases ys) simp_all

lemma join_append:
  "join sep (xs @ ys) = (if xs = [] then join sep ys else if ys = [] then join sep xs
     else join sep xs @ sep @ join sep ys)"
  by (induction xs) (auto simp: join_Cons)

lemma join_nested:
  "ys \<noteq> [] \<Longrightarrow> join sep (xs @ [join sep ys] @ zs) = join sep (xs @ ys @ zs)"
  by (simp add: join_append join_Cons)

lemma split_nonempty: "split sep s \<noteq> []"
  by (induction sep s rule: split.induct) (auto simp: Let_def)

lemma split_comma_free: "t \<in> set (split [c] s) \<Longrightarrow> c \<notin> set t"
proof (induction s arbitrary: t)
  case Nil
  then show ?case by simp
next
  case (Cons a s)
  then show ?case
    using split_nonempty [of "[c]" s]
    by (cases "split [c] s") (auto simp: startswith_def Let_def split: if_splits)
qed

lemma hd_split_prefix: "c \<notin> set t \<Longrightarrow> hd (split [c] (t @ c # rest)) = t"
  by (induction t) (auto simp: startswith_def Let_def)

lemma hd_split_whole: "c \<notin> set t \<Longrightarrow> hd (split [c] t) = t"
  by (induction t) (auto simp: startswith_def Let_def)

lemma hd_split_join:
  "g \<noteq> [] \<Longrightarrow> c \<notin> set (hd g) \<Longrightarrow> hd (split [c] (join [c] g)) = hd g"
  by (cases "(([c]::string), g)" rule: join.cases) (auto simp: hd_split_prefix hd_split_whole)

lemma split_length: "sep \<noteq> [] \<Longrightarrow> length (split sep s) = Suc (count_str sep s)"
  by (induction sep s rule: split.induct) (auto simp: Let_def)

lemma str_in_count: "sep \<noteq> [] \<Longrightarrow> str_in sep s \<longleftrightarrow> 1 \<le> count_str sep s"
  by (induction sep s rule: count_str.induct) auto


section \<open>Properties of \_recover\_package\_name\<close>

lemma reconstruct_join:
  "(np = [] \<longrightarrow> pn = []) \<Longrightarrow>
   join '','' (reconstruct np pn ns) = join '','' (pn @ np @ ns)"
proof (induction ns arbitrary: np pn)
  case Nil
  then show ?case by (cases "np = []") (simp_all add: join_append)
next
  case (Cons n ns)
  show ?case
  proof (cases "is_package_name n")
    case True
    show ?thesis
    proof (cases "np = []")
      case True
      with Cons.prems \<open>is_package_name n\<close> Cons.IH [of "[n]" "[]"] show ?thesis by simp
    next
      case False
      with \<open>is_package_name n\<close> Cons.IH [of "[n]" "pn @ [join '','' np]"]
      show ?thesis using join_nested [of np "'',''" pn "n # ns"] by simp
    qed
  next
    case False
    with Cons.prems Cons.IH [of "np @ [n]" pn] show ?thesis by simp
  qed
qed

text \<open>
  The loop invariant for the heads of the groups: once a group has been
  emitted, the group under construction starts with a package name.
\<close>

lemma reconstruct_heads:
  assumes "\<forall>t\<in>set (np @ ns). CHR '','' \<notin> set t"
    and "\<forall>e\<in>set (tl pn). is_package_name (hd (split '','' e))"
    and "pn \<noteq> [] \<longrightarrow> np \<noteq> [] \<and> is_package_name (hd np)"
  shows "\<forall>e\<in>set (tl (reconstruct np pn ns)). is_package_name (hd (split '','' e))"
  using assms
proof (induction ns arbitrary: np pn)
  case Nil
  show ?case
  proof (cases "pn = []")
    case True
    then show ?thesis by simp
  next
    case False
    with Nil.prems have "np \<noteq> []" "is_package_name (hd np)" "CHR '','' \<notin> set (hd np)"
      by auto
    then have "is_package_name (hd (split '','' (join '','' np)))"
      using hd_split_join [of np "CHR '',''"] by simp
    with False Nil.prems(2) show ?thesis by auto
  qed
next
  case (Cons n ns)
  show ?case
  proof (cases "is_package_name n")
    case pk: True
    show ?thesis
    proof (cases "np = []")
      case True
      with Cons.prems(3) have "pn = []" by blast
      with True pk Cons.IH [of "[n]" "[]"] Cons.prems(1) show ?thesis by simp
    next
      case False
      have a: "\<forall>t\<in>set ([n] @ ns). CHR '','' \<notin> set t" using Cons.prems(1) by simp
      have b: "\<forall>e\<in>set (tl (pn @ [join '','' np])). is_package_name (hd (split '','' e))"
      proof (cases "pn = []")
        case True
        then show ?thesis by simp
      next
        case pne: False
        with Cons.prems have "is_package_name (hd np)" "CHR '','' \<notin> set (hd np)"
          using False by auto
        then have "is_package_name (hd (split '','' (join '','' np)))"
          using hd_split_join [of np "CHR '',''"] False by simp
        with pne Cons.prems(2) show ?thesis by auto
      qed
      have c: "pn @ [join '','' np] \<noteq> [] \<longrightarrow> [n] \<noteq> [] \<and> is_package_name (hd [n])"
        using pk by simp
      from Cons.IH [OF a b c] pk False show ?thesis by simp
    qed
  next
    case False
    have a: "\<forall>t\<in>set ((np @ [n]) @ ns). CHR '','' \<notin> set t" using Cons.prems(1) by simp
    have c: "pn \<noteq> [] \<longrightarrow> np @ [n] \<noteq> [] \<and> is_package_name (hd (np @ [n]))"
      using Cons.prems(3) by auto
    from Cons.IH [OF a Cons.prems(2) c] False show ?thesis by simp
  qed
qed

text \<open>
  C10.  \<open>_recover_package_name\<close> keeps every comma-separated token, in order:
  joining its result with commas gives the same string as joining the
  flattened token list, for every input list.  Every element of the result
  after the first begins with a token that is a package name, so a
  version-specifier fragment always stays with the package name before it.
\<close>

theorem recover_package_name_tokens:
  "join '','' (recover_package_name names) = join '','' (concat (map (split '','') names)) \<and>
   (\<forall>e\<in>set (tl (recover_package_name names)). is_package_name (hd (split '','' e)))"
proof
  show "join '','' (recover_package_name names) = join '','' (concat (map (split '','') names))"
    using reconstruct_join [of "[]" "[]"] by (simp add: recover_package_name_def)
next
  have "\<forall>t\<in>set ([] @ concat (map (split '','') names)). CHR '','' \<notin> set t"
    using split_comma_free [of _ "CHR '',''"] by auto
  from reconstruct_heads [OF this, of "[]"]
  show "\<forall>e\<in>set (tl (recover_package_name names)). is_package_name (hd (split '','' e))"
    by (simp add: recover_package_name_def)
qed

theorem recover_package_name_tokens_witness:
  "tl (recover_package_name [''django>1.11.1,<1.11.3,ipaddress'', ''simpleproject>1.1.0,<2.0.0''])
     = [''ipaddress'', ''simpleproject>1.1.0,<2.0.0''] \<and>
   is_package_name (hd (split '','' ''simpleproject>1.1.0,<2.0.0''))"
proof -
  let ?names = "[''django>1.11.1,<1.11.3,ipaddress'', ''simpleproject>1.1.0,<2.0.0'']"
  have t: "tl (recover_package_name ?names) = [''ipaddress'', ''simpleproject>1.1.0,<2.0.0'']"
    by code_simp
  from recover_package_name_tokens [of ?names]
  have "\<forall>e\<in>set (tl (recover_package_name ?names)). is_package_name (hd (split '','' e))"
    by (rule conjunct2)
  with t show ?thesis by simp
qed


section \<open>Properties of \_is\_present\<close>

lemma is_present_pass:
  "entry_passes py3 req pkg \<Longrightarrow> is_present py3 req (pkg # rest) = is_present py3 req rest"
  by (auto simp: entry_passes_def split: list.splits sum.splits)

lemma is_present_match:
  "entry_matches py3 req pkg \<Longrightarrow> is_present py3 req (pkg # rest) = Inr True"
  by (auto simp: entry_matches_def split: list.splits sum.splits)

lemma is_present_stuck:
  "\<not> entry_passes py3 req pkg \<Longrightarrow> \<not> entry_matches py3 req pkg \<Longrightarrow>
   \<exists>e. is_present py3 req (pkg # rest) = Inl e"
  by (auto simp: entry_passes_def entry_matches_def split: list.splits sum.splits)

lemma match_not_pass: "entry_matches py3 req pkg \<Longrightarrow> \<not> entry_passes py3 req pkg"
  by (auto simp: entry_passes_def entry_matches_def split: list.splits sum.splits)

lemma is_present_prefix:
  "list_all (entry_passes py3 req) pre \<Longrightarrow>
   is_present py3 req (pre @ rest) = is_present py3 req rest"
  by (induction pre) (simp_all add: is_present_pass del: is_present.simps)

lemma is_present_True_iff:
  "is_present py3 req pkgs = Inr True \<longleftrightarrow>
     (\<exists>pre pkg post. pkgs = pre @ pkg # post \<and> list_all (entry_passes py3 req) pre
        \<and> entry_matches py3 req pkg)"
  (is "?lhs pkgs \<longleftrightarrow> ?rhs pkgs")
proof
  assume "?rhs pkgs"
  then obtain pre pkg post where "pkgs = pre @ pkg # post"
    "list_all (entry_passes py3 req) pre" "entry_matches py3 req pkg" by blast
  then show "?lhs pkgs" by (simp add: is_present_prefix is_present_match del: is_present.simps)
next
  assume "?lhs pkgs"
  then show "?rhs pkgs"
  proof (induction pkgs)
    case Nil
    then show ?case by simp
  next
    case (Cons a pkgs)
    consider (m) "entry_matches py3 req a" | (p) "entry_passes py3 req a"
      | (s) "\<not> entry_passes py3 req a" "\<not> entry_matches py3 req a" by blast
    then show ?case
    proof cases
      case m
      then have "a # pkgs = [] @ a # pkgs \<and> list_all (entry_passes py3 req) []
          \<and> entry_matches py3 req a" by simp
      then show ?thesis by blast
    next
      case p
      with Cons.prems have "?lhs pkgs" by (simp add: is_present_pass del: is_present.simps)
      from Cons.IH [OF this] obtain pre pkg post where h: "pkgs = pre @ pkg # post"
        "list_all (entry_passes py3 req) pre" "entry_matches py3 req pkg" by blast
      with p have "a # pkgs = (a # pre) @ pkg # post \<and> list_all (entry_passes py3 req) (a # pre)
          \<and> entry_matches py3 req pkg" by simp
      then show ?thesis by blast
    next
      case s
      from is_present_stuck [OF s] obtain e where "is_present py3 req (a # pkgs) = Inl e"
        by blast
      with Cons.prems show ?thesis by simp
    qed
  qed
qed

lemma is_present_skip:
  "is_present py3 req (filter (str_in ''=='') pkgs) = is_present py3 req pkgs"
  by (induction pkgs) (simp_all split: list.splits sum.splits)

text \<open>
  C4, as the code has it.  \<open>_is_present\<close> returns True exactly when some line
  of the listing contains \<open>==\<close>, splits into exactly a name and a version,
  the lower-cased name equals \<open>req.package_name\<close> and \<open>req.is_satisfied_by\<close>
  accepts the version, and every line before the first such line is stepped
  over by the loop (it has no \<open>==\<close>, or it splits into exactly two parts that
  do not match).  Lines without \<open>==\<close> never affect the result.
\<close>

theorem is_present_iff_first_match:
  "(is_present py3 req pkgs = Inr True \<longleftrightarrow>
      (\<exists>pre pkg post. pkgs = pre @ pkg # post \<and> list_all (entry_passes py3 req) pre
         \<and> entry_matches py3 req pkg)) \<and>
   is_present py3 req (filter (str_in ''=='') pkgs) = is_present py3 req pkgs"
  using is_present_True_iff [of py3 req pkgs] is_present_skip [of py3 req pkgs] by blast

theorem is_present_iff_first_match_witness:
  "list_all (entry_passes False
       (ReqPackage \<lparr>plain_package = True, package_name = ''foo'',
          requirement = Some \<lparr>project_name = ''foo'', specs = [(''>='', ''1.0'')],
                               specifier = None, req_str = ''foo>=1.0''\<rparr>\<rparr>))
     [''wheel'', ''bar==2.0''] \<and>
   is_present False
       (ReqPackage \<lparr>plain_package = True, package_name = ''foo'',
          requirement = Some \<lparr>project_name = ''foo'', specs = [(''>='', ''1.0'')],
                               specifier = None, req_str = ''foo>=1.0''\<rparr>\<rparr>)
     [''wheel'', ''bar==2.0'', ''Foo==1.2''] = Inr True"
proof -
  let ?req = "ReqPackage \<lparr>plain_package = True, package_name = ''foo'',
          requirement = Some \<lparr>project_name = ''foo'', specs = [(''>='', ''1.0'')],
                               specifier = None, req_str = ''foo>=1.0''\<rparr>\<rparr>"
  have p: "list_all (entry_passes False ?req) [''wheel'', ''bar==2.0'']"
    by code_simp
  have m: "entry_matches False ?req ''Foo==1.2''"
    by code_simp
  have "[''wheel'', ''bar==2.0'', ''Foo==1.2''] = [''wheel'', ''bar==2.0''] @ ''Foo==1.2'' # []"
    by simp
  with p m have "\<exists>pre pkg post. [''wheel'', ''bar==2.0'', ''Foo==1.2''] = pre @ pkg # post
      \<and> list_all (entry_passes False ?req) pre \<and> entry_matches False ?req pkg" by blast
  with is_present_iff_first_match [of False ?req "[''wheel'', ''bar==2.0'', ''Foo==1.2'']"] p
  show ?thesis by blast
qed

text \<open>
  The claim as written fails: with a line that holds \<open>==\<close> twice in front of
  it, a matching line does not make \<open>_is_present\<close> return True.
\<close>

theorem is_present_iff_counterexample:
  "entry_matches False
       (ReqPackage \<lparr>plain_package = True, package_name = ''foo'',
          requirement = Some \<lparr>project_name = ''foo'', specs = [(''>='', ''1.0'')],
                               specifier = None, req_str = ''foo>=1.0''\<rparr>\<rparr>)
       ''foo==1.2'' \<and>
   is_present False
       (ReqPackage \<lparr>plain_package = True, package_name = ''foo'',
          requirement = Some \<lparr>project_name = ''foo'', specs = [(''>='', ''1.0'')],
                               specifier = None, req_str = ''foo>=1.0''\<rparr>\<rparr>)
       [''a==1==2'', ''foo==1.2''] = Inl ValueError"
  by code_simp

lemma count_small:
  assumes "count_str ''=='' pkg \<le> 1"
  shows "\<not> str_in ''=='' pkg \<or> (\<exists>n v. split ''=='' pkg = [n, v])"
proof (cases "str_in ''=='' pkg")
  case False
  then show ?thesis by simp
next
  case True
  with assms have "count_str ''=='' pkg = 1" using str_in_count [of "''==''" pkg] by simp
  then have "length (split ''=='' pkg) = 2" using split_length [of "''==''" pkg] by simp
  then show ?thesis by (auto simp: length_Suc_conv numeral_2_eq_2)
qed

lemma count_big:
  "2 \<le> count_str ''=='' pkg \<Longrightarrow> str_in ''=='' pkg \<and> 3 \<le> length (split ''=='' pkg)"
  using str_in_count [of "''==''" pkg] split_length [of "''==''" pkg] by simp

lemma is_present_unpack_error:
  assumes "2 \<le> count_str ''=='' pkg"
  shows "is_present py3 req (pkg # rest) = Inl ValueError"
proof -
  from count_big [OF assms] have a: "str_in ''=='' pkg" and b: "3 \<le> length (split ''=='' pkg)"
    by simp_all
  from b obtain x y z zs where "split ''=='' pkg = x # y # z # zs"
    by (auto simp: numeral_3_eq_3 Suc_le_length_iff)
  with a show ?thesis by simp
qed

lemma is_present_total:
  assumes c: "\<forall>pkg\<in>set pkgs. count_str ''=='' pkg \<le> 1"
    and t: "\<forall>pkg\<in>set pkgs. \<forall>n v. split ''=='' pkg = [n, v] \<and> lower n = package_name p \<longrightarrow>
              (\<exists>b. is_satisfied_by py3 p v = Inr b)"
  shows "\<exists>b. is_present py3 (ReqPackage p) pkgs = Inr b"
  using c t
proof (induction pkgs)
  case Nil
  show ?case by (rule exI [of _ False]) simp
next
  case (Cons a pkgs)
  then obtain b where ih: "is_present py3 (ReqPackage p) pkgs = Inr b" by auto
  from Cons.prems have "count_str ''=='' a \<le> 1" by simp
  from count_small [OF this] show ?case
  proof
    assume "\<not> str_in ''=='' a"
    with ih show ?thesis by simp
  next
    assume "\<exists>n v. split ''=='' a = [n, v]"
    then obtain n v where nv: "split ''=='' a = [n, v]" by blast
    show ?thesis
    proof (cases "lower n = package_name p")
      case True
      with Cons.prems(2) nv obtain ok where "is_satisfied_by py3 p v = Inr ok" by auto
      with nv ih show ?thesis
        by (auto simp: req_package_name_def req_is_satisfied_by_def)
    next
      case False
      with nv ih show ?thesis
        by (auto simp: req_package_name_def req_is_satisfied_by_def)
    qed
  qed
qed

text \<open>
  C9, as the code has it.  A line in which \<open>==\<close> occurs two or more times
  makes the two-name unpacking raise ValueError as soon as the loop reaches
  it, that is, when every line before it is stepped over.  When every line
  holds \<open>==\<close> at most once and \<open>req\<close> is a Package whose \<open>is_satisfied_by\<close>
  raises on none of the listed versions whose lower-cased name is
  \<open>req.package_name\<close>, \<open>_is_present\<close> returns a boolean.
\<close>

theorem is_present_total_under_precondition:
  "(2 \<le> count_str ''=='' pkg \<longrightarrow> list_all (entry_passes py3 req) pre \<longrightarrow>
      is_present py3 req (pre @ pkg # post) = Inl ValueError) \<and>
   ((\<forall>pkg\<in>set pkgs. count_str ''=='' pkg \<le> 1) \<longrightarrow>
    (\<forall>pkg\<in>set pkgs. \<forall>n v. split ''=='' pkg = [n, v] \<and> lower n = package_name p \<longrightarrow>
       (\<exists>b. is_satisfied_by py3 p v = Inr b)) \<longrightarrow>
      (\<exists>b. is_present py3 (ReqPackage p) pkgs = Inr b))"
proof (intro conjI impI)
  assume "2 \<le> count_str ''=='' pkg" "list_all (entry_passes py3 req) pre"
  then show "is_present py3 req (pre @ pkg # post) = Inl ValueError"
    using is_present_unpack_error [of pkg py3 req post]
      is_present_prefix [of py3 req pre "pkg # post"] by simp
next
  assume "\<forall>pkg\<in>set pkgs. count_str ''=='' pkg \<le> 1"
    "\<forall>pkg\<in>set pkgs. \<forall>n v. split ''=='' pkg = [n, v] \<and> lower n = package_name p \<longrightarrow>
       (\<exists>b. is_satisfied_by py3 p v = Inr b)"
  then show "\<exists>b. is_present py3 (ReqPackage p) pkgs = Inr b"
    by (rule is_present_total)
qed

theorem is_present_total_under_precondition_witness:
  "is_present True
      (ReqPackage \<lparr>plain_package = True, package_name = ''foo'',
         requirement = Some \<lparr>project_name = ''foo'', specs = [(''>='', ''1.0.1'')],
                              specifier = None, req_str = ''foo>=1.0.1''\<rparr>\<rparr>)
      ([''wheel''] @ ''a==1==2'' # [''foo==1.2'']) = Inl ValueError \<and>
   (\<exists>b. is_present True
      (ReqPackage \<lparr>plain_package = True, package_name = ''foo'',
         requirement = Some \<lparr>project_name = ''foo'', specs = [(''>='', ''1.0.1'')],
                              specifier = None, req_str = ''foo>=1.0.1''\<rparr>\<rparr>)
      [''wheel'', ''bar==1.0a'', ''Foo==1.2''] = Inr b)"
proof -
  let ?p = "\<lparr>plain_package = True, package_name = ''foo'',
         requirement = Some \<lparr>project_name = ''foo'', specs = [(''>='', ''1.0.1'')],
                              specifier = None, req_str = ''foo>=1.0.1''\<rparr>\<rparr>"
  let ?pkgs = "[''wheel'', ''bar==1.0a'', ''Foo==1.2'']"
  have a: "2 \<le> count_str ''=='' ''a==1==2''" by code_simp
  have b: "list_all (entry_passes True (ReqPackage ?p)) [''wheel'']" by code_simp
  have c: "\<forall>pkg\<in>set ?pkgs. count_str ''=='' pkg \<le> 1"
    by (simp add: startswith_def)
  have s1: "split ''=='' ''wheel'' = [''wheel'']" by code_simp
  have s2: "split ''=='' ''bar==1.0a'' = [''bar'', ''1.0a'']" by code_simp
  have s3: "split ''=='' ''Foo==1.2'' = [''Foo'', ''1.2'']" by code_simp
  have n2: "lower ''bar'' \<noteq> package_name ?p" by code_simp
  have v3: "is_satisfied_by True ?p ''1.2'' = Inr True" by code_simp
  have d: "\<forall>pkg\<in>set ?pkgs. \<forall>n v. split ''=='' pkg = [n, v] \<and> lower n = package_name ?p \<longrightarrow>
             (\<exists>b. is_satisfied_by True ?p v = Inr b)"
    using s1 s2 s3 n2 v3 by auto
  from is_present_total_under_precondition
    [of "''a==1==2''" True "ReqPackage ?p" "[''wheel'']" "[''foo==1.2'']" ?pkgs ?p]
    a b c d
  show ?thesis by blast
qed

text \<open>
  The claim as written fails: every line holds \<open>==\<close> once, and the version
  check of the fallback path raises TypeError on Python 3 (the installed
  version \<open>1.0a\<close> against the constraint \<open>>=1.0.1\<close>).
\<close>

theorem is_present_total_counterexample:
  "count_str ''=='' ''foo==1.0a'' \<le> 1 \<and>
   is_present True
     (ReqPackage \<lparr>plain_package = True, package_name = ''foo'',
        requirement = Some \<lparr>project_name = ''foo'', specs = [(''>='', ''1.0.1'')],
                             specifier = None, req_str = ''foo>=1.0.1''\<rparr>\<rparr>)
     [''foo==1.0a''] = Inl TypeError"
  by code_simp


section \<open>The construction of a Package\<close>

text \<open>No call of the constructor yields a Package: it raises NameError, or IndexError
  for a version of blanks only.\<close>

lemma Package_None: "Package name_string None = Inl NameError"
  by (simp add: Package_def joined_name_def Requirement_parse_def)

lemma Package_raises:
  "Package name_string version_string = Inl NameError \<or>
   Package name_string version_string = Inl IndexError"
  by (simp add: Package_def joined_name_def Requirement_parse_def Let_def split: option.splits)

text \<open>
  C5.  On the code as it is, no requirement specifier is compared with an
  installed version: \<open>Package('foo>=1.0,<2.0')\<close> raises NameError, because
  \<open>Requirement\<close> is not bound in \<open>module_utils/pip.py\<close>.  The run of the pip
  module in check mode with this name, which would compare the specifier with
  the listing, ends with the uncaught exception before any command is run;
  \<open>is_satisfied_by\<close> is never reached.
\<close>

theorem package_construction_raises:
  "Package ''foo>=1.0,<2.0'' None = Inl NameError \<and>
   fst (pip_main example_host
          (example_params\<lparr>name := Some [''foo>=1.0,<2.0''], check_mode := True\<rparr>) example_start)
     = Inl (Raise NameError) \<and>
   trace (snd (pip_main example_host
          (example_params\<lparr>name := Some [''foo>=1.0,<2.0''], check_mode := True\<rparr>) example_start))
     = []"
proof (intro conjI)
  show "Package ''foo>=1.0,<2.0'' None = Inl NameError" by (rule Package_None)
qed code_simp+


section \<open>Effects of an action\<close>

lemma env_rel_refl: "env_rel v s s"
  by (simp add: env_rel_def)

lemma env_rel_trans: "env_rel v s t \<Longrightarrow> env_rel v t u \<Longrightarrow> env_rel v s u"
  by (auto simp: env_rel_def split: option.splits)

lemma env_rel_trace: "env_rel v s (s\<lparr>trace := tr\<rparr>)"
  by (simp add: env_rel_def)

lemma and_then_Inl: "fst (m s) = Inl e \<Longrightarrow> and_then m f s = (Inl e, snd (m s))"
  by (cases "m s") (simp add: and_then_def)

lemma and_then_Inr: "fst (m s) = Inr x \<Longrightarrow> and_then m f s = f x (snd (m s))"
  by (cases "m s") (simp add: and_then_def)

lemma and_then_ret [simp]: "and_then (ret x) f = f x"
  by (simp add: and_then_def ret_def)

lemma and_then_fail_json [simp]: "and_then (fail_json msg c) f = fail_json msg c"
  by (simp add: and_then_def fail_json_def)

lemma acts_pure:
  assumes "\<And>s. snd (m s) = s" and "\<And>s h. Q h [] (ending (fst (m s)))"
  shows "acts v Q m"
  unfolding acts_def using assms by (auto simp: env_rel_refl)

text \<open>Sequencing: the first action ends the run, or the second continues after it.\<close>

lemma acts_and_then:
  assumes m: "acts v Q1 m" and f: "\<And>x. acts v Q2 (f x)"
    and stop: "\<And>h ys e. Q1 h ys (Some e) \<Longrightarrow> Q h ys (Some e)"
    and go: "\<And>h ys zs r. Q1 h ys None \<Longrightarrow> Q2 (h @ ys) zs r \<Longrightarrow> Q h (ys @ zs) r"
  shows "acts v Q (and_then m f)"
  unfolding acts_def
proof (intro allI)
  fix s
  from m obtain ys where a: "trace (snd (m s)) = trace s @ ys" "env_rel v s (snd (m s))"
    "Q1 (trace s) ys (ending (fst (m s)))"
    unfolding acts_def by blast
  show "\<exists>ys. trace (snd (and_then m f s)) = trace s @ ys \<and> env_rel v s (snd (and_then m f s)) \<and>
          Q (trace s) ys (ending (fst (and_then m f s)))"
  proof (cases "fst (m s)")
    case (Inl e)
    then have "and_then m f s = (Inl e, snd (m s))" by (rule and_then_Inl)
    moreover from a(3) Inl have "Q (trace s) ys (Some e)" by (simp add: ending_def stop)
    ultimately show ?thesis using a(1,2) by (auto simp: ending_def)
  next
    case (Inr x)
    then have eq: "and_then m f s = f x (snd (m s))" by (rule and_then_Inr)
    from f [of x] obtain zs where b: "trace (snd (f x (snd (m s)))) = trace (snd (m s)) @ zs"
      "env_rel v (snd (m s)) (snd (f x (snd (m s))))"
      "Q2 (trace (snd (m s))) zs (ending (fst (f x (snd (m s)))))"
      unfolding acts_def by blast
    from a(3) Inr have "Q1 (trace s) ys None" by (simp add: ending_def)
    with b(3) a(1) have "Q (trace s) (ys @ zs) (ending (fst (f x (snd (m s)))))"
      by (simp add: go)
    moreover have "trace (snd (and_then m f s)) = trace s @ (ys @ zs)" using a b eq by simp
    moreover have "env_rel v s (snd (and_then m f s))"
      using env_rel_trans [OF a(2) b(2)] eq by simp
    ultimately show ?thesis using eq by auto
  qed
qed

lemma acts_weaken:
  assumes "acts v Q m" and "\<And>h ys r. Q h ys r \<Longrightarrow> Q' h ys r"
  shows "acts v Q' m"
  using assms unfolding acts_def by blast

subsection \<open>The umask around the body of main\<close>

lemma apply_umask_cases:
  "(\<exists>msg k. apply_umask w ps s = (Inl (FailJson msg k), s)) \<or>
   (\<exists>e. apply_umask w ps s = (Inl (Raise e), s)) \<or>
   apply_umask w ps s = (Inr None, s) \<or>
   (\<exists>m. apply_umask w ps s = (Inr (Some (uint (cur_umask s))), s\<lparr>cur_umask := word_of_int m\<rparr>))"
  by (auto simp: apply_umask_def ret_def raise_def fail_json_def os_umask_def and_then_def
      split: option.splits)

lemma try_finally_no_umask: "try_finally body (restore_umask None) s = body s"
  by (simp add: try_finally_def restore_umask_def ret_def split: prod.splits)

lemma try_finally_restore:
  "try_finally body (restore_umask (Some (uint (u :: 9 word)))) s =
     (fst (body s), (snd (body s))\<lparr>cur_umask := u\<rparr>)"
proof -
  have "uint u < 2 ^ 31"
    using uint_bounded [of u] by simp
  moreover have "- (2 ^ 31) \<le> uint u"
  proof -
    have "(0::int) \<le> uint u" by simp
    moreover have "- (2 ^ 31) \<le> (0::int)" by simp
    ultimately show ?thesis by (rule order_trans [rotated])
  qed
  ultimately show ?thesis
    by (simp add: try_finally_def restore_umask_def ret_def os_umask_def and_then_def
        split: prod.splits)
qed

text \<open>
  What holds of the body of \<open>main\<close> holds of \<open>main\<close>: the umask set before the
  \<open>try\<close> statement is put back by its \<open>finally\<close> clause, and the steps around
  the body run no command.
\<close>

lemma acts_wrapped:
  assumes body: "acts v Q body"
    and fl: "\<And>h msg k. Q h [] (Some (FailJson msg k))" and rs: "\<And>h e. Q h [] (Some (Raise e))"
  shows "acts v Q (and_then (apply_umask w ps)
                    (\<lambda>old_umask. try_finally body (restore_umask old_umask)))"
  unfolding acts_def
proof (intro allI)
  fix s
  let ?m = "and_then (apply_umask w ps) (\<lambda>old_umask. try_finally body (restore_umask old_umask))"
  let ?goal = "\<exists>ys. trace (snd (?m s)) = trace s @ ys \<and> env_rel v s (snd (?m s)) \<and>
          Q (trace s) ys (ending (fst (?m s)))"
  from apply_umask_cases [of w ps s]
  consider (fail) msg k where "apply_umask w ps s = (Inl (FailJson msg k), s)"
    | (raise) e where "apply_umask w ps s = (Inl (Raise e), s)"
    | (none) "apply_umask w ps s = (Inr None, s)"
    | (some) m where "apply_umask w ps s =
        (Inr (Some (uint (cur_umask s))), s\<lparr>cur_umask := word_of_int m\<rparr>)"
    by blast
  then show ?goal
  proof cases
    case fail
    then have "?m s = (Inl (FailJson msg k), s)" by (simp add: and_then_def)
    then show ?thesis using fl by (simp add: env_rel_refl ending_def)
  next
    case raise
    then have "?m s = (Inl (Raise e), s)" by (simp add: and_then_def)
    then show ?thesis using rs by (simp add: env_rel_refl ending_def)
  next
    case none
    then have "?m s = body s" by (simp add: and_then_def try_finally_no_umask)
    with body show ?thesis unfolding acts_def by simp
  next
    case some
    let ?s1 = "s\<lparr>cur_umask := word_of_int m\<rparr>"
    from some have eq: "?m s = (fst (body ?s1), (snd (body ?s1))\<lparr>cur_umask := cur_umask s\<rparr>)"
      by (simp add: and_then_def try_finally_restore)
    from body obtain ys where b: "trace (snd (body ?s1)) = trace ?s1 @ ys"
      "env_rel v ?s1 (snd (body ?s1))" "Q (trace ?s1) ys (ending (fst (body ?s1)))"
      unfolding acts_def by blast
    from b(2) have "env_rel v s ((snd (body ?s1))\<lparr>cur_umask := cur_umask s\<rparr>)"
      by (auto simp: env_rel_def split: option.splits)
    with b eq show ?thesis by auto
  qed
qed

lemma acts_pip_main:
  assumes "acts v Q (pip_body w ps (effective_env ps))"
    and "\<And>h msg k. Q h [] (Some (FailJson msg k))" and "\<And>h e. Q h [] (Some (Raise e))"
  shows "acts v Q (pip_main w ps)"
proof (cases "HAS_SETUPTOOLS w")
  case True
  then show ?thesis unfolding pip_main_def using assms by (simp add: acts_wrapped)
next
  case False
  then show ?thesis unfolding pip_main_def using assms(2)
    by (auto intro!: acts_pure simp: fail_json_def ending_def)
qed

lemma acts_pipenv_main:
  assumes "acts v Q (pipenv_body w ps (effective_env ps))"
    and "\<And>h msg k. Q h [] (Some (FailJson msg k))" and "\<And>h e. Q h [] (Some (Raise e))"
  shows "acts v Q (pipenv_main w ps)"
proof (cases "HAS_SETUPTOOLS w")
  case True
  then show ?thesis unfolding pipenv_main_def using assms by (simp add: acts_wrapped)
next
  case False
  then show ?thesis unfolding pipenv_main_def using assms(2)
    by (auto intro!: acts_pure simp: fail_json_def ending_def)
qed

lemma truthy_effective_env: "truthy (effective_env ps) = truthy (virtualenv ps)"
  by (auto simp: effective_env_def truthy_def path_join_def path_join2_def split: option.splits)


section \<open>Commands run and ways out\<close>

named_theorems only_intros

lemma only_ret [only_intros]: "only v C E (ret x)"
  unfolding only_def by (rule acts_pure) (simp_all add: ret_def ending_def)

lemma only_raise [only_intros]: "E (Raise e) \<Longrightarrow> only v C E (raise e)"
  unfolding only_def by (rule acts_pure) (simp_all add: raise_def ending_def)

lemma only_fail_json [only_intros]: "E (FailJson msg c) \<Longrightarrow> only v C E (fail_json msg c)"
  unfolding only_def by (rule acts_pure) (simp_all add: fail_json_def ending_def)

lemma only_pip_fail [only_intros]:
  "E (FailJson (fail_msg out err) (Some c)) \<Longrightarrow> only v C E (pip_fail c out err)"
  by (simp add: pip_fail_def only_fail_json)

lemma only_exit_json [only_intros]: "E (ExitJson info) \<Longrightarrow> only v C E (exit_json info)"
  unfolding only_def by (rule acts_pure) (simp_all add: exit_json_def ending_def)

lemma only_lift [only_intros]: "(\<And>e. E (Raise e)) \<Longrightarrow> only v C E (lift r)"
  by (cases r) (simp_all add: lift_def only_ret only_raise)

lemma only_run_command [only_intros]: "C c \<Longrightarrow> only v C E (run_command w c)"
  by (simp add: only_def acts_def run_command_def env_rel_trace ending_def)

lemma only_get_bin_path [only_intros]:
  "(\<And>msg. E (FailJson msg None)) \<Longrightarrow> only v C E (get_bin_path w arg required opt_dirs)"
  unfolding only_def
  by (rule acts_pure) (simp_all add: get_bin_path_def ending_def split: option.splits)

lemma only_os_path_exists [only_intros]: "only v C E (os_path_exists w p)"
  unfolding only_def by (rule acts_pure) (simp_all add: os_path_exists_def ending_def)

lemma only_host_is_executable [only_intros]: "only v C E (host_is_executable w p)"
  unfolding only_def by (rule acts_pure) (simp_all add: host_is_executable_def ending_def)

lemma only_set_environ [only_intros]: "only (Some e) C E (set_environ ''VIRTUAL_ENV'' e)"
  by (simp add: only_def acts_def set_environ_def env_rel_def ending_def)

lemma only_and_then [only_intros]:
  "only v C E m \<Longrightarrow> (\<And>x. only v C E (f x)) \<Longrightarrow> only v C E (and_then m f)"
  unfolding only_def by (erule acts_and_then) auto

lemma only_weaken:
  "only v C E m \<Longrightarrow> (\<And>c. C c \<Longrightarrow> C' c) \<Longrightarrow> (\<And>e. E e \<Longrightarrow> E' e) \<Longrightarrow> only v C' E' m"
  unfolding only_def
  by (erule acts_weaken) (auto simp: list_all_iff split: option.splits)


subsection \<open>The helpers of module\_utils/pip.py\<close>

lemma only_get_cmd_options [only_intros]:
  "(\<And>c. is_shell c \<Longrightarrow> C c) \<Longrightarrow> (\<And>msg k. E (FailJson msg k)) \<Longrightarrow>
   only v C E (get_cmd_options w c)"
  unfolding get_cmd_options_def Let_def
  by (auto intro!: only_intros simp: is_shell_def plain_call_def split: prod.splits)

lemma only_get_packages [only_intros]:
  "(\<And>c. is_shell c \<Longrightarrow> C c) \<Longrightarrow> (\<And>msg k. E (FailJson msg k)) \<Longrightarrow>
   only v C E (get_packages w pip dir)"
  unfolding get_packages_def
  by (auto intro!: only_intros simp: is_shell_def list_call_def freeze_call_def split: prod.splits)

lemma only_first_bin_path [only_intros]:
  "(\<And>msg k. E (FailJson msg k)) \<Longrightarrow> only v C E (first_bin_path w bs)"
  by (induction bs) (auto intro!: only_intros)

lemma only_first_in_venv [only_intros]:
  "only v C E (first_in_venv w venv_dir bs)"
  by (induction bs) (auto intro!: only_intros simp: Let_def)

lemma only_get_pip [only_intros]:
  "(\<And>msg k. E (FailJson msg k)) \<Longrightarrow> only v C E (get_pip w env exe)"
  unfolding get_pip_def Let_def
  by (auto intro!: only_intros split: option.splits
      simp del: first_in_venv.simps first_bin_path.simps)

lemma only_get_package_info [only_intros]:
  "(\<And>c. is_special_query c \<Longrightarrow> C c) \<Longrightarrow> (\<And>msg k. E (FailJson msg k)) \<Longrightarrow>
   only v C E (get_package_info w package env)"
  unfolding get_package_info_def Let_def
  by (auto intro!: only_intros simp: is_special_query_def plain_call_def
      split: option.splits prod.splits)

lemma only_setup_virtualenv [only_intros]:
  "(\<And>c. is_shell c \<Longrightarrow> C c) \<Longrightarrow> (\<And>msg k. E (FailJson msg k)) \<Longrightarrow>
   (check_mode ps \<Longrightarrow> E venv_check_exit) \<Longrightarrow>
   only v C E (setup_virtualenv w ps env dir out err)"
  unfolding setup_virtualenv_def Let_def venv_check_exit_def
  by (auto intro!: only_intros simp: is_shell_def split: prod.splits)

lemma only_ensure_virtualenv [only_intros]:
  "(\<And>c. is_shell c \<Longrightarrow> C c) \<Longrightarrow> (\<And>msg k. E (FailJson msg k)) \<Longrightarrow>
   (check_mode ps \<Longrightarrow> truthy env \<Longrightarrow> E venv_check_exit) \<Longrightarrow>
   only v C E (ensure_virtualenv w ps env dir)"
  unfolding ensure_virtualenv_def
  by (auto intro!: only_intros split: prod.splits)

subsection \<open>The phases of the pip module\<close>

lemma only_map_action [only_intros]:
  "(\<And>x. only v C E (f x)) \<Longrightarrow> only v C E (map_action f xs)"
  by (induction xs) (auto intro!: only_intros)

lemma only_pip_packages [only_intros]:
  "(\<And>msg k. E (FailJson msg k)) \<Longrightarrow> (\<And>e. E (Raise e)) \<Longrightarrow> only v C E (pip_packages ps names)"
  unfolding pip_packages_def
  by (auto intro!: only_intros split: option.splits list.splits)

lemma only_special_packages [only_intros]:
  "(\<And>c. is_special_query c \<Longrightarrow> C c) \<Longrightarrow> (\<And>msg k. E (FailJson msg k)) \<Longrightarrow>
   only v C E (special_packages w names env pkgs acc)"
  by (induction pkgs arbitrary: acc) (auto intro!: only_intros split: option.splits)

lemma only_pip_check_mode [only_intros]:
  "(\<And>c. is_shell c \<Longrightarrow> C c) \<Longrightarrow> (\<And>c. is_special_query c \<Longrightarrow> C c) \<Longrightarrow> (\<And>e. E e) \<Longrightarrow>
   only v C E (pip_check_mode w ps env dir pip packages extra out err)"
  unfolding pip_check_mode_def Let_def
  by (auto intro!: only_intros split: prod.splits simp del: special_packages.simps)

lemma only_pip_install [only_intros]:
  "(\<And>c. C c) \<Longrightarrow> (\<And>e. E e) \<Longrightarrow>
   only v C E (pip_install w ps dir pip c prefix has_vcs venv_created out err)"
  unfolding pip_install_def Let_def
  by (auto intro!: only_intros split: prod.splits option.splits)

lemma acts_pip_body_any:
  "(\<And>c. C c) \<Longrightarrow> (\<And>e. E e) \<Longrightarrow> only v C E (pip_body w ps env)"
  unfolding pip_body_def Let_def
  by (auto intro!: only_intros split: prod.splits option.splits)

subsection \<open>The pipenv module\<close>

lemma only_get_pipenv [only_intros]:
  "(\<And>msg k. E (FailJson msg k)) \<Longrightarrow> only v C E (get_pipenv w env exe)"
  unfolding get_pipenv_def
  by (auto intro!: only_intros split: option.splits)

lemma only_pipenv_install_pipenv [only_intros]:
  "C (plain_call (Argv [''pip'', ''install'', ''pipenv''])) \<Longrightarrow> (\<And>msg k. E (FailJson msg k)) \<Longrightarrow>
   only v C E (pipenv_install_pipenv w present env out err)"
  unfolding pipenv_install_pipenv_def Let_def
  by (auto intro!: only_intros split: prod.splits)

lemma only_pipenv_sync [only_intros]:
  "(\<And>c. is_sync c \<Longrightarrow> C c) \<Longrightarrow> (\<And>msg k. E (FailJson msg k)) \<Longrightarrow>
   (\<And>info. changed info \<Longrightarrow> E (ExitJson info)) \<Longrightarrow>
   (truthy env \<Longrightarrow> v = Some (the env)) \<Longrightarrow>
   only v C E (pipenv_sync w ps env pip venv_created pipenv_installed out err)"
  unfolding pipenv_sync_def Let_def has_changes_def
  by (auto intro!: only_intros simp: is_sync_def split: prod.splits)

lemma only_pipenv_body:
  "(\<And>c. C c) \<Longrightarrow> (\<And>e. E e) \<Longrightarrow> (truthy env \<Longrightarrow> v = Some (the env)) \<Longrightarrow>
   only v C E (pipenv_body w ps env)"
  unfolding pipenv_body_def Let_def
  by (auto intro!: only_intros split: prod.splits option.splits)



section \<open>The umask and the environment across main\<close>

lemma only_pip_main_any: "only None (\<lambda>c. True) (\<lambda>e. True) (pip_main w ps)"
  unfolding only_def
  by (rule acts_pip_main) (simp_all add: acts_pip_body_any [unfolded only_def])

lemma only_pipenv_main_any:
  "only (if truthy (virtualenv ps) then effective_env ps else None) (\<lambda>c. True) (\<lambda>e. True)
     (pipenv_main w ps)"
  unfolding only_def
proof (rule acts_pipenv_main)
  have "(if truthy (virtualenv ps) then effective_env ps else None) = Some (the (effective_env ps))"
    if "truthy (effective_env ps)"
  proof -
    from that have "truthy (virtualenv ps)" by (simp add: truthy_effective_env)
    moreover from that have "effective_env ps = Some (the (effective_env ps))"
      by (cases "effective_env ps") (simp_all add: truthy_def)
    ultimately show ?thesis by simp
  qed
  from only_pipenv_body [OF _ _ this, of "\<lambda>c. True" "\<lambda>e. True" w ps]
  show "acts (if truthy (virtualenv ps) then effective_env ps else None)
     (\<lambda>h ys r. list_all (\<lambda>c. True) ys \<and> (case r of None \<Rightarrow> True | Some e \<Rightarrow> True))
     (pipenv_body w ps (effective_env ps))"
    by (simp add: only_def)
qed simp_all

text \<open>
  C3, as the code has it.  Both modules leave the umask as it was before
  \<open>main\<close>, however \<open>main\<close> ends.  The pip module leaves \<open>os.environ\<close> as it
  was.  The pipenv module leaves it as it was, or, when \<open>virtualenv\<close> is
  given, with \<open>VIRTUAL_ENV\<close> set to the path of the virtualenv and not
  restored.
\<close>

theorem main_umask_and_environment:
  "cur_umask (snd (pip_main w ps s)) = cur_umask s \<and>
   os_environ (snd (pip_main w ps s)) = os_environ s \<and>
   cur_umask (snd (pipenv_main w ps s)) = cur_umask s \<and>
   (os_environ (snd (pipenv_main w ps s)) = os_environ s \<or>
    truthy (virtualenv ps) \<and>
    os_environ (snd (pipenv_main w ps s)) =
      (os_environ s)(''VIRTUAL_ENV'' \<mapsto> the (effective_env ps)))"
proof -
  from only_pip_main_any [of w ps] have "env_rel None s (snd (pip_main w ps s))"
    unfolding only_def acts_def by blast
  moreover
  from only_pipenv_main_any [of ps w]
  have "env_rel (if truthy (virtualenv ps) then effective_env ps else None) s
          (snd (pipenv_main w ps s))"
    unfolding only_def acts_def by blast
  ultimately show ?thesis
    by (auto simp: env_rel_def split: option.splits if_splits)
qed

text \<open>
  The claim as written fails: after a run of the pipenv module with a
  virtualenv, \<open>VIRTUAL_ENV\<close> is set, and it was not before.
\<close>

theorem pipenv_virtual_env_counterexample:
  "os_environ example_start ''VIRTUAL_ENV'' = None \<and>
   os_environ (snd (pipenv_main example_host (example_params\<lparr>virtualenv := Some ''/venv''\<rparr>)
                      example_start)) ''VIRTUAL_ENV'' = Some ''/venv''"
  by code_simp



section \<open>The pipenv module's check for pipenv\<close>

lemma is_present_str:
  "is_present py3 (ReqStr s) pkgs =
     (if list_ex (str_in ''=='') pkgs
      then (if length (split ''=='' (hd (filter (str_in ''=='') pkgs))) = 2
            then Inl AttributeError else Inl ValueError)
      else Inr False)"
  by (induction pkgs) (auto simp: req_package_name_def split: list.splits)

text \<open>The call of line 224 on a tuple with \<open>==\<close> in one of its three strings.\<close>

lemma presence_check_on_tuple:
  assumes "str_in ''=='' command \<or> str_in ''=='' out \<or> str_in ''=='' err"
  shows "is_present py3 (ReqStr ''pipenv'') (tuple_items (command, out, err)) = Inl ValueError \<or>
         is_present py3 (ReqStr ''pipenv'') (tuple_items (command, out, err)) = Inl AttributeError"
proof -
  from assms have "list_ex (str_in ''=='') [command, out, err]" by auto
  then show ?thesis
    unfolding tuple_items_def prod.case is_present_str by presburger
qed

text \<open>After the listing, the body of the \<open>try\<close> statement goes on with the call of
  \<open>_is_present\<close>; when that call raises, the body ends there.\<close>

lemma pipenv_body_raises:
  assumes "fst (pipenv_listing w ps env s) = Inr t"
    and "is_present (PY3 w) (ReqStr ''pipenv'') (tuple_items t) = Inl e"
  shows "pipenv_body w ps env s = (Inl (Raise e), snd (pipenv_listing w ps env s))"
  using assms unfolding pipenv_body_def pipenv_listing_def Let_def
  by (auto simp: and_then_def lift_def raise_def split: prod.splits sum.splits)

lemma pipenv_main_raises:
  assumes l: "fst (pipenv_main_listing w ps s) = Inr t"
    and e: "is_present (PY3 w) (ReqStr ''pipenv'') (tuple_items t) = Inl e"
  shows "fst (pipenv_main w ps s) = Inl (Raise e) \<and>
         trace (snd (pipenv_main w ps s)) = trace (snd (pipenv_main_listing w ps s))"
proof -
  let ?env = "effective_env ps"
  from l have has: "HAS_SETUPTOOLS w"
    by (auto simp: pipenv_main_listing_def fail_json_def split: if_splits)
  from apply_umask_cases [of w ps s]
  consider (fail) msg k where "apply_umask w ps s = (Inl (FailJson msg k), s)"
    | (raise) x where "apply_umask w ps s = (Inl (Raise x), s)"
    | (none) "apply_umask w ps s = (Inr None, s)"
    | (some) m where "apply_umask w ps s =
        (Inr (Some (uint (cur_umask s))), s\<lparr>cur_umask := word_of_int m\<rparr>)"
    by blast
  then show ?thesis
  proof cases
    case fail
    with l has show ?thesis by (simp add: pipenv_main_listing_def and_then_def)
  next
    case raise
    with l has show ?thesis by (simp add: pipenv_main_listing_def and_then_def)
  next
    case none
    with has have a: "pipenv_main_listing w ps s = pipenv_listing w ps ?env s"
      and b: "pipenv_main w ps s = pipenv_body w ps ?env s"
      by (simp_all add: pipenv_main_listing_def pipenv_main_def and_then_def
          try_finally_no_umask)
    from l a have "fst (pipenv_listing w ps ?env s) = Inr t" by simp
    from pipenv_body_raises [OF this e] a b show ?thesis by simp
  next
    case some
    let ?s1 = "s\<lparr>cur_umask := word_of_int m\<rparr>"
    from some has have a: "pipenv_main_listing w ps s = pipenv_listing w ps ?env ?s1"
      and b: "pipenv_main w ps s =
          (fst (pipenv_body w ps ?env ?s1),
           (snd (pipenv_body w ps ?env ?s1))\<lparr>cur_umask := cur_umask s\<rparr>)"
      by (simp_all add: pipenv_main_listing_def pipenv_main_def and_then_def
          try_finally_restore)
    from l a have "fst (pipenv_listing w ps ?env ?s1) = Inr t" by simp
    from pipenv_body_raises [OF this e] a b show ?thesis by simp
  qed
qed

text \<open>
  C8.  The pipenv module passes the string \<open>'pipenv'\<close> and the tuple
  \<open>(command, out, err)\<close> of \<open>_get_packages\<close> to \<open>_is_present\<close>.  In every run
  of \<open>main\<close> that gets as far as the listing, with one of the three strings
  containing \<open>==\<close>, that call raises ValueError or AttributeError, the run
  ends with this exception, and no command is run after the listing.
\<close>

theorem pipenv_presence_check_raises:
  assumes "fst (pipenv_main_listing w ps s) = Inr (command, out, err)"
    and "str_in ''=='' command \<or> str_in ''=='' out \<or> str_in ''=='' err"
  shows "\<exists>e. (e = ValueError \<or> e = AttributeError) \<and>
             is_present (PY3 w) (ReqStr ''pipenv'') (tuple_items (command, out, err)) = Inl e \<and>
             fst (pipenv_main w ps s) = Inl (Raise e) \<and>
             trace (snd (pipenv_main w ps s)) = trace (snd (pipenv_main_listing w ps s))"
proof -
  from presence_check_on_tuple [OF assms(2), of "PY3 w"] obtain e
    where e: "e = ValueError \<or> e = AttributeError"
      "is_present (PY3 w) (ReqStr ''pipenv'') (tuple_items (command, out, err)) = Inl e"
    by blast
  from pipenv_main_raises [OF assms(1) e(2)] e show ?thesis by blast
qed

theorem pipenv_presence_check_raises_witness:
  "fst (pipenv_main_listing pipenv_host example_params example_start)
     = Inr (''/tmp list --format=freeze'', ''pipenv==2018.7.1\<newline>'', []) \<and>
   fst (pipenv_main pipenv_host example_params example_start) = Inl (Raise AttributeError) \<and>
   trace (snd (pipenv_main pipenv_host example_params example_start))
     = [list_call ''/tmp'' ''/tmp'']"
proof -
  have a: "fst (pipenv_main_listing pipenv_host example_params example_start)
     = Inr (''/tmp list --format=freeze'', ''pipenv==2018.7.1\<newline>'', [])"
    by code_simp
  have b: "str_in ''=='' ''pipenv==2018.7.1\<newline>''" by code_simp
  have c: "is_present (PY3 pipenv_host) (ReqStr ''pipenv'')
     (tuple_items (''/tmp list --format=freeze'', ''pipenv==2018.7.1\<newline>'', [])) \<noteq> Inl ValueError"
    by code_simp
  have d: "trace (snd (pipenv_main_listing pipenv_host example_params example_start))
     = [list_call ''/tmp'' ''/tmp'']"
    by code_simp
  from pipenv_presence_check_raises [OF a] b c d
  show ?thesis using a by auto
qed



section \<open>The version parameter of the pip module\<close>

named_theorems ends_intros

lemma ends_raise [ends_intros]: "E (Raise e) \<Longrightarrow> ends v C E (raise e)"
  unfolding ends_def by (rule acts_pure) (simp_all add: raise_def ending_def)

lemma ends_fail_json [ends_intros]: "E (FailJson msg c) \<Longrightarrow> ends v C E (fail_json msg c)"
  unfolding ends_def by (rule acts_pure) (simp_all add: fail_json_def ending_def)

lemma ends_pip_fail [ends_intros]:
  "E (FailJson (fail_msg out err) (Some c)) \<Longrightarrow> ends v C E (pip_fail c out err)"
  by (simp add: pip_fail_def ends_fail_json)

lemma ends_exit_json [ends_intros]: "E (ExitJson info) \<Longrightarrow> ends v C E (exit_json info)"
  unfolding ends_def by (rule acts_pure) (simp_all add: exit_json_def ending_def)

lemma ends_and_then [ends_intros]:
  "only v C E m \<Longrightarrow> (\<And>x. ends v C E (f x)) \<Longrightarrow> ends v C E (and_then m f)"
  unfolding only_def ends_def by (erule acts_and_then) auto

lemma fail_json_ex: "\<exists>msg. fail_json m c = fail_json msg c"
  by blast

lemma recover_package_name_nonempty: "recover_package_name names \<noteq> []"
proof -
  have "reconstruct np pn ns \<noteq> []" for np pn ns
    by (induction ns arbitrary: np pn) simp_all
  then show ?thesis by (simp add: recover_package_name_def)
qed

lemma raise_and_then: "and_then (raise e) f = raise e"
  by (simp add: and_then_def raise_def)

text \<open>Line 346 builds at least one Package, and the first one raises NameError.\<close>

lemma pip_packages_raises: "pip_packages ps names = raise NameError"
proof -
  obtain n rest where "recover_package_name names = n # rest"
    using recover_package_name_nonempty [of names] by (cases "recover_package_name names") auto
  then show ?thesis
    by (simp add: pip_packages_def Package_None lift_def raise_and_then)
qed

lemma pip_body_with_name:
  assumes "name ps = Some names" and "names \<noteq> []"
  shows "ends None is_shell (\<lambda>e. is_failure e \<or> check_mode ps \<and> truthy env \<and> e = venv_check_exit)
           (pip_body w ps env)"
  using assms unfolding pip_body_def Let_def
  by (simp add: pip_packages_raises raise_and_then)
    (auto intro!: ends_intros only_intros simp: is_failure_def split: prod.splits)

lemma pip_body_latest:
  "state ps = Latest \<Longrightarrow> version ps \<noteq> None \<Longrightarrow>
   ends None (\<lambda>c. False) is_failure (pip_body w ps env)"
  unfolding pip_body_def by (auto intro!: ends_intros simp: is_failure_def)

lemma ends_pip_main:
  assumes "ends v C E (pip_body w ps (effective_env ps))"
    and "\<And>msg k. E (FailJson msg k)" and "\<And>e. E (Raise e)"
  shows "\<exists>e ys. fst (pip_main w ps s) = Inl e \<and> E e \<and>
           trace (snd (pip_main w ps s)) = trace s @ ys \<and> list_all C ys"
proof -
  from assms have "acts v (\<lambda>h ys r. list_all C ys \<and> (case r of Some e \<Rightarrow> E e | None \<Rightarrow> False))
      (pip_main w ps)"
    unfolding ends_def by (intro acts_pip_main) simp_all
  then obtain ys where "trace (snd (pip_main w ps s)) = trace s @ ys" "list_all C ys"
    "case ending (fst (pip_main w ps s)) of Some e \<Rightarrow> E e | None \<Rightarrow> False"
    unfolding acts_def by blast
  then show ?thesis by (cases "fst (pip_main w ps s)") (auto simp: ending_def)
qed






section \<open>How often a command is run\<close>

lemma at_most_from_only: "only v (\<lambda>c. \<not> P c) (\<lambda>e. True) m \<Longrightarrow> at_most v n P m"
  unfolding only_def at_most_def
  by (erule acts_weaken) (simp add: list_all_iff filter_empty_conv [THEN iffD2])

lemma at_most_and_then:
  assumes "at_most v a P m" and "\<And>x. at_most v b P (f x)" and "a + b \<le> n"
  shows "at_most v n P (and_then m f)"
  using assms(1,2) unfolding at_most_def
proof (rule acts_and_then)
  fix h ys e
  assume "length (filter P ys) \<le> a"
  with assms(3) show "length (filter P ys) \<le> n" by simp
next
  fix h ys zs r
  assume "length (filter P ys) \<le> a" "length (filter P zs) \<le> b"
  with assms(3) show "length (filter P (ys @ zs)) \<le> n" by simp
qed

lemma at_most_run_command: "at_most v (Suc 0) P (run_command w c)"
  by (simp add: at_most_def acts_def run_command_def env_rel_trace)

lemma at_most_before:
  "only v (\<lambda>c. \<not> P c) (\<lambda>e. True) m \<Longrightarrow> (\<And>x. at_most v n P (f x)) \<Longrightarrow>
   at_most v n P (and_then m f)"
  by (rule at_most_and_then [where a = 0 and b = n]) (simp_all add: at_most_from_only)

lemma at_most_after:
  "at_most v n P m \<Longrightarrow> (\<And>x. only v (\<lambda>c. \<not> P c) (\<lambda>e. True) (f x)) \<Longrightarrow>
   at_most v n P (and_then m f)"
  by (rule at_most_and_then [where a = n and b = 0]) (simp_all add: at_most_from_only)

lemma not_action_shell: "is_shell c \<Longrightarrow> \<not> is_pip_action c"
  by (simp add: is_shell_def is_pip_action_def split: cmd.splits)

lemma not_action_special: "is_special_query c \<Longrightarrow> \<not> is_pip_action c"
  by (auto simp: is_special_query_def is_pip_action_def split: cmd.splits list.splits)

lemma not_sync_shell: "is_shell c \<Longrightarrow> \<not> is_sync c"
  by (simp add: is_shell_def is_sync_def split: cmd.splits)

lemma at_most_pip_install:
  "at_most v (Suc 0) is_pip_action (pip_install w ps dir pip c prefix has_vcs venv_created out err)"
  unfolding pip_install_def
proof (rule at_most_before)
  show "only v (\<lambda>c. \<not> is_pip_action c) (\<lambda>e. True)
     (if truthy (requirements ps) \<or> has_vcs
      then and_then (get_packages w pip dir) (\<lambda>(x, out_freeze, y). ret (Some out_freeze))
      else ret None)"
    by (auto intro!: only_intros simp: not_action_shell split: prod.splits)
next
  fix before
  show "at_most v (Suc 0) is_pip_action
          (and_then (run_command w \<lparr>cmd = Argv c, cwd = Some dir, environ_update = [],
                                     path_prefix = prefix\<rparr>)
            (\<lambda>(rc, out_pip, err_pip).
              let out = out @ out_pip; err = err @ err_pip
              in if \<not> (rc = 1 \<and> state ps = Absent \<and>
                        (str_in ''not installed'' out_pip \<or> str_in ''not installed'' err_pip)) \<and>
                    rc \<noteq> 0
                 then pip_fail (Argv c) out err
                 else and_then
                        (if state ps = Absent then ret (str_in ''Successfully uninstalled'' out_pip)
                         else case before of
                                None \<Rightarrow> ret (str_in ''Successfully installed'' out_pip)
                              | Some b \<Rightarrow>
                                  and_then (get_packages w pip dir)
                                    (\<lambda>(x, out_freeze_after, y). ret (b \<noteq> out_freeze_after)))
                        (\<lambda>chg. exit_json \<lparr>changed = chg \<or> venv_created, exit_cmd = Some (Argv c),
                                          stdout = Some out, stderr = Some err, warnings = []\<rparr>)))"
    by (rule at_most_after [OF at_most_run_command])
       (auto intro!: only_intros simp: not_action_shell Let_def split: prod.splits option.splits)
qed

lemma at_most_fail_json: "at_most v n P (fail_json msg c)"
  by (rule at_most_from_only) (simp add: only_fail_json)

lemma at_most_pip_check_mode:
  "at_most v n is_pip_action (pip_check_mode w ps env dir pip packages extra out err)"
  by (rule at_most_from_only)
     (auto intro!: only_intros simp: not_action_shell not_action_special)

lemma at_most_pip_body: "at_most v (Suc 0) is_pip_action (pip_body w ps env)"
  unfolding pip_body_def Let_def
  by (auto intro!: at_most_before at_most_pip_install at_most_pip_check_mode at_most_fail_json
        only_intros
      simp: not_action_shell split: prod.splits option.splits)


lemma not_action_sync: "is_sync c \<Longrightarrow> \<not> is_pip_action c"
  by (auto simp: is_sync_def is_pip_action_def split: cmd.splits list.splits)

lemma not_sync_install: "\<not> is_sync (plain_call (Argv [''pip'', ''install'', ''pipenv'']))"
  by (simp add: is_sync_def plain_call_def)

lemma at_most_ret: "at_most v n P (ret x)"
  by (rule at_most_from_only) (rule only_ret)

lemma at_most_pipenv_install_pipenv:
  "at_most v (Suc 0) P (pipenv_install_pipenv w present env out err)"
  unfolding pipenv_install_pipenv_def
  by (auto intro!: at_most_after [OF at_most_run_command] at_most_ret only_intros
      simp: Let_def split: prod.splits)

lemma at_most_pipenv_sync:
  assumes "truthy env \<Longrightarrow> v = Some (the env)"
  shows "at_most v (Suc 0) is_sync (pipenv_sync w ps env pip venv_created pipenv_installed out err)"
  unfolding pipenv_sync_def has_changes_def using assms
  by (auto intro!: at_most_before at_most_after [OF at_most_run_command] only_intros
      simp: Let_def split: prod.splits)

lemma at_most_pipenv_body_install:
  assumes "truthy env \<Longrightarrow> v = Some (the env)"
  shows "at_most v (Suc 0) is_pip_action (pipenv_body w ps env)"
  unfolding pipenv_body_def Let_def
  apply (rule at_most_before)
  subgoal by (auto intro!: only_intros simp: not_action_shell)
  apply (simp only: split_paired_all prod.case)
  apply (rule at_most_before)
  subgoal by (auto intro!: only_intros)
  apply (rule at_most_before)
  subgoal by (auto intro!: only_intros simp: not_action_shell)
  apply (rule at_most_before)
  subgoal by (auto intro!: only_intros)
  apply (rule at_most_after)
  subgoal by (rule at_most_pipenv_install_pipenv)
  apply (simp only: split_paired_all prod.case)
  using assms by (auto intro!: only_intros simp: not_action_sync)

lemma at_most_pipenv_body_sync:
  assumes "truthy env \<Longrightarrow> v = Some (the env)"
  shows "at_most v (Suc 0) is_sync (pipenv_body w ps env)"
  unfolding pipenv_body_def Let_def
  using assms
  by (auto intro!: at_most_before at_most_pipenv_sync only_intros
      simp: not_sync_shell not_sync_install split: prod.splits)

lemma at_most_main:
  assumes "at_most v n P (pip_body w ps (effective_env ps))"
  shows "\<exists>ys. trace (snd (pip_main w ps s)) = trace s @ ys \<and> length (filter P ys) \<le> n"
proof -
  from assms have "acts v (\<lambda>h ys r. length (filter P ys) \<le> n) (pip_main w ps)"
    unfolding at_most_def by (intro acts_pip_main) simp_all
  then show ?thesis unfolding acts_def by blast
qed

lemma at_most_pipenv_main:
  assumes "at_most v n P (pipenv_body w ps (effective_env ps))"
  shows "\<exists>ys. trace (snd (pipenv_main w ps s)) = trace s @ ys \<and> length (filter P ys) \<le> n"
proof -
  from assms have "acts v (\<lambda>h ys r. length (filter P ys) \<le> n) (pipenv_main w ps)"
    unfolding at_most_def by (intro acts_pipenv_main) simp_all
  then show ?thesis unfolding acts_def by blast
qed

lemma get_packages_trace:
  "trace (snd (get_packages w pip dir s)) =
     trace s @ (if fst (respond w (trace s) (list_call pip dir)) = 0 then [list_call pip dir]
                else [list_call pip dir, freeze_call pip dir])"
  by (simp add: get_packages_def and_then_def run_command_def ret_def pip_fail_def fail_json_def
      split: prod.splits)

text \<open>
  C6, as the code has it.  The listing of installed packages runs
  \<open>pip list --format=freeze\<close> once and, exactly when that command exits with a
  nonzero code, the different command \<open>pip freeze\<close> once after it, and nothing
  else.  In every run of the pip module at most one install or uninstall
  command is run; in every run of the pipenv module \<open>pip install pipenv\<close> and
  \<open>pipenv sync\<close> are each run at most once.
\<close>

theorem no_retry_but_listing_fallback:
  "trace (snd (get_packages w pip dir s)) =
     trace s @ (if fst (respond w (trace s) (list_call pip dir)) = 0 then [list_call pip dir]
                else [list_call pip dir, freeze_call pip dir]) \<and>
   cmd (list_call pip dir) \<noteq> cmd (freeze_call pip dir) \<and>
   (\<exists>ys. trace (snd (pip_main w ps s)) = trace s @ ys \<and> length (filter is_pip_action ys) \<le> 1) \<and>
   (\<exists>ys. trace (snd (pipenv_main w ps s)) = trace s @ ys \<and>
         length (filter is_pip_action ys) \<le> 1 \<and> length (filter is_sync ys) \<le> 1)"
proof (intro conjI)
  show "trace (snd (get_packages w pip dir s)) =
     trace s @ (if fst (respond w (trace s) (list_call pip dir)) = 0 then [list_call pip dir]
                else [list_call pip dir, freeze_call pip dir])"
    by (rule get_packages_trace)
  show "cmd (list_call pip dir) \<noteq> cmd (freeze_call pip dir)"
    by (simp add: list_call_def freeze_call_def)
  show "\<exists>ys. trace (snd (pip_main w ps s)) = trace s @ ys \<and> length (filter is_pip_action ys) \<le> 1"
    using at_most_main [OF at_most_pip_body, where s = s and w = w and ps = ps] by simp
  let ?v = "if truthy (effective_env ps) then Some (the (effective_env ps)) else None"
  have i: "at_most ?v (Suc 0) is_pip_action (pipenv_body w ps (effective_env ps))"
    by (rule at_most_pipenv_body_install) simp
  have j: "at_most ?v (Suc 0) is_sync (pipenv_body w ps (effective_env ps))"
    by (rule at_most_pipenv_body_sync) simp
  from at_most_pipenv_main [OF i, where s = s]
  obtain ys where a: "trace (snd (pipenv_main w ps s)) = trace s @ ys"
    "length (filter is_pip_action ys) \<le> 1" by auto
  from at_most_pipenv_main [OF j, where s = s]
  obtain zs where b: "trace (snd (pipenv_main w ps s)) = trace s @ zs"
    "length (filter is_sync zs) \<le> 1" by auto
  from a(1) b(1) have "ys = zs" by simp
  with a b show "\<exists>ys. trace (snd (pipenv_main w ps s)) = trace s @ ys \<and>
         length (filter is_pip_action ys) \<le> 1 \<and> length (filter is_sync ys) \<le> 1" by blast
qed

text \<open>
  The claim as written fails: on a host whose pip has no \<open>list --format\<close>, a
  run of the pip module with a requirements file lists the packages twice,
  and each time \<open>pip freeze\<close> is run after \<open>pip list\<close> has failed.
\<close>

theorem listing_fallback_counterexample:
  "fst (respond old_pip_host [] (list_call ''/usr/bin/pip3'' ''/tmp'')) = 1 \<and>
   map cmd (trace (snd (pip_main old_pip_host (example_params\<lparr>requirements := Some ''r.txt''\<rparr>)
                          example_start))) =
     [Shell ''/usr/bin/pip3 list --format=freeze'', Shell ''/usr/bin/pip3 freeze'',
      Argv [''/usr/bin/pip3'', ''install'', ''-r'', ''r.txt''],
      Shell ''/usr/bin/pip3 list --format=freeze'', Shell ''/usr/bin/pip3 freeze'']"
  by code_simp



section \<open>Failures of the wrapped commands\<close>

lemma str_in_Nil [simp]: "str_in [] s"
  by (cases s) (simp_all add: startswith_def)

lemma str_in_self_append: "str_in x (x @ b)"
  by (cases x) (simp_all add: startswith_def)

lemma str_in_appendI2: "str_in x s \<Longrightarrow> str_in x (a @ s)"
  by (induction a) simp_all

lemma startswith_append: "startswith s x \<Longrightarrow> startswith (s @ b) x"
proof -
  assume a: "startswith s x"
  then have "length (take (length x) s) = length x" by (simp add: startswith_def)
  then have "length x \<le> length s" by (simp add: min_def split: if_splits)
  with a show ?thesis by (simp add: startswith_def)
qed

lemma str_in_appendI1: "str_in x s \<Longrightarrow> str_in x (s @ b)"
proof (induction s)
  case Nil
  then show ?case by simp
next
  case (Cons c cs)
  then show ?case using startswith_append [of "c # cs" x b] by auto
qed

lemma str_in_middle: "str_in x (a @ x @ b)"
  by (simp add: str_in_appendI2 str_in_self_append)

lemma fail_msg_out: "str_in o1 (fail_msg (out @ o1) err)"
proof (cases "out @ o1 = []")
  case True
  then show ?thesis by simp
next
  case False
  have "str_in o1 ((''stdout: '' @ out) @ o1 @ (if err \<noteq> [] then ''\<newline>:stderr: '' @ err else []))"
    by (rule str_in_middle)
  with False show ?thesis by (simp add: fail_msg_def)
qed

lemma fail_msg_err: "str_in e1 (fail_msg out (err @ e1))"
proof (cases "err @ e1 = []")
  case True
  then show ?thesis by simp
next
  case False
  have "str_in e1 (((if out \<noteq> [] then ''stdout: '' @ out else []) @ ''\<newline>:stderr: '' @ err) @ e1 @ [])"
    by (rule str_in_middle)
  with False show ?thesis by (simp add: fail_msg_def)
qed

lemma fail_msg_out0: "str_in o1 (fail_msg o1 err)"
  using fail_msg_out [of o1 "[]" err] by simp

lemma fail_msg_err0: "str_in e1 (fail_msg out e1)"
  using fail_msg_err [of e1 out "[]"] by simp

named_theorems fwd_intros

lemma fwd_from_only: "only v (\<lambda>c. False) (\<lambda>e. True) m \<Longrightarrow> fwd v w ab m"
  unfolding only_def fwd_def
  by (erule acts_weaken) (auto simp: list_all_iff)

lemma fwd_and_then:
  assumes "fwd v w ab m" and "\<And>x. fwd v w ab (f x)"
  shows "fwd v w ab (and_then m f)"
  using assms unfolding fwd_def
proof (rule acts_and_then)
  fix h ys zs :: "call list" and r
  assume a: "\<forall>i<length ys. forwarded w ab (h @ take i ys) (ys ! i) None"
    and b: "\<forall>i<length zs. forwarded w ab ((h @ ys) @ take i zs) (zs ! i) r"
  show "\<forall>i<length (ys @ zs). forwarded w ab (h @ take i (ys @ zs)) ((ys @ zs) ! i) r"
  proof (intro allI impI)
    fix i
    assume i: "i < length (ys @ zs)"
    show "forwarded w ab (h @ take i (ys @ zs)) ((ys @ zs) ! i) r"
    proof (cases "i < length ys")
      case True
      with a have "forwarded w ab (h @ take i ys) (ys ! i) None" by simp
      then have "forwarded w ab (h @ take i ys) (ys ! i) r"
        by (auto simp: forwarded_def split: prod.splits)
      with True show ?thesis by (simp add: nth_append)
    next
      case False
      with i have "i - length ys < length zs" by simp
      with b have "forwarded w ab ((h @ ys) @ take (i - length ys) zs) (zs ! (i - length ys)) r"
        by simp
      with False show ?thesis by (simp add: nth_append)
    qed
  qed
qed

text \<open>
  A command followed by the check of its exit code: when the exit code is
  nonzero and not exempt, the continuation fails at once with a message that
  holds the stdout and the stderr of the command.
\<close>

lemma fwd_run:
  assumes chk: "\<And>h rc out err s. respond w h c = (rc, out, err) \<Longrightarrow> rc \<noteq> 0 \<Longrightarrow>
      \<not> exempt ab c rc out err \<Longrightarrow> reports_failure out err (f (rc, out, err) s) s"
    and rest: "\<And>x. fwd v w ab (f x)"
  shows "fwd v w ab (and_then (run_command w c) f)"
  unfolding fwd_def acts_def
proof (intro allI)
  fix s :: proc
  let ?s1 = "s\<lparr>trace := trace s @ [c]\<rparr>"
  let ?x = "respond w (trace s) c"
  let ?m = "and_then (run_command w c) f"
  have eq: "?m s = f ?x ?s1" by (simp add: and_then_def run_command_def)
  from rest [of ?x] obtain zs where z: "trace (snd (f ?x ?s1)) = trace ?s1 @ zs"
    "env_rel v ?s1 (snd (f ?x ?s1))"
    "\<forall>i<length zs. forwarded w ab (trace ?s1 @ take i zs) (zs ! i) (ending (fst (f ?x ?s1)))"
    unfolding fwd_def acts_def by blast
  have first: "forwarded w ab (trace s) c (ending (fst (f ?x ?s1)))"
  proof (cases ?x)
    case (fields rc out err)
    show ?thesis
    proof (cases "rc \<noteq> 0 \<and> \<not> exempt ab c rc out err")
      case True
      with chk [OF fields, of ?s1] have "reports_failure out err (f (rc, out, err) ?s1) ?s1"
        by blast
      with fields show ?thesis
        by (auto simp: forwarded_def ending_def reports_failure_def split: sum.splits exit.splits)
    next
      case False
      with fields show ?thesis by (auto simp: forwarded_def)
    qed
  qed
  have "\<forall>i<length (c # zs). forwarded w ab (trace s @ take i (c # zs)) ((c # zs) ! i)
          (ending (fst (?m s)))"
  proof (intro allI impI)
    fix i
    assume "i < length (c # zs)"
    then show "forwarded w ab (trace s @ take i (c # zs)) ((c # zs) ! i) (ending (fst (?m s)))"
      using first z(3) eq by (cases i) simp_all
  qed
  moreover have "trace (snd (?m s)) = trace s @ (c # zs)" using z(1) eq by simp
  moreover have "env_rel v s (snd (?m s))"
    using z(2) eq by (auto simp: env_rel_def split: option.splits)
  ultimately show "\<exists>ys. trace (snd (?m s)) = trace s @ ys \<and> env_rel v s (snd (?m s)) \<and>
      (\<forall>i<length ys. forwarded w ab (trace s @ take i ys) (ys ! i) (ending (fst (?m s))))"
    by blast
qed

lemma fwd_if: "(b \<Longrightarrow> fwd v w ab m1) \<Longrightarrow> (\<not> b \<Longrightarrow> fwd v w ab m2) \<Longrightarrow>
   fwd v w ab (if b then m1 else m2)"
  by simp

lemma fwd_case_prod: "(\<And>a b. fwd v w ab (f a b)) \<Longrightarrow> fwd v w ab (case_prod f x)"
  by (cases x) simp

lemma fwd_case_option:
  "fwd v w ab m \<Longrightarrow> (\<And>y. fwd v w ab (f y)) \<Longrightarrow> fwd v w ab (case_option m f x)"
  by (cases x) simp_all

lemma fwd_ret: "fwd v w ab (ret x)"
  by (rule fwd_from_only) (rule only_ret)

lemma fwd_fail_json: "fwd v w ab (fail_json msg c)"
  by (rule fwd_from_only) (simp add: only_fail_json)

lemma fwd_pip_fail: "fwd v w ab (pip_fail c out err)"
  by (rule fwd_from_only) (simp add: only_pip_fail)

lemma fwd_exit_json: "fwd v w ab (exit_json info)"
  by (rule fwd_from_only) (simp add: only_exit_json)

lemma fwd_raise: "fwd v w ab (raise e)"
  by (rule fwd_from_only) (simp add: only_raise)

lemma fwd_lift: "fwd v w ab (lift r)"
  by (rule fwd_from_only) (simp add: only_lift)

lemma fwd_get_bin_path: "fwd v w ab (get_bin_path w arg required opt_dirs)"
  by (rule fwd_from_only) (simp add: only_get_bin_path)

lemma fwd_os_path_exists: "fwd v w ab (os_path_exists w p)"
  by (rule fwd_from_only) (rule only_os_path_exists)

lemma fwd_get_pip: "fwd v w ab (get_pip w env exe)"
  by (rule fwd_from_only) (simp add: only_get_pip)

lemma fwd_pip_packages: "fwd v w ab (pip_packages ps names)"
  by (rule fwd_from_only) (simp add: only_pip_packages)

lemma fwd_get_pipenv: "fwd v w ab (get_pipenv w env exe)"
  by (rule fwd_from_only) (simp add: only_get_pipenv)

lemma fwd_set_environ: "fwd (Some e) w ab (set_environ ''VIRTUAL_ENV'' e)"
  by (rule fwd_from_only) (rule only_set_environ)

lemmas fwd_basic = fwd_run fwd_and_then fwd_if fwd_case_prod fwd_case_option fwd_ret
  fwd_fail_json fwd_pip_fail fwd_exit_json fwd_raise fwd_lift fwd_get_bin_path
  fwd_os_path_exists fwd_get_pip fwd_pip_packages fwd_get_pipenv

lemma help_failure_msg_holds:
  "str_in out (help_failure_msg t out err) \<and> str_in err (help_failure_msg t out err)"
proof
  have "str_in out ((''Could not get output from '' @ t @ '': '') @ out @ err)"
    by (rule str_in_middle)
  then show "str_in out (help_failure_msg t out err)" by (simp add: help_failure_msg_def)
  have "str_in err ((''Could not get output from '' @ t @ '': '' @ out) @ err @ [])"
    by (rule str_in_middle)
  then show "str_in err (help_failure_msg t out err)" by (simp add: help_failure_msg_def)
qed

lemma reports_fail_json:
  "str_in out msg \<Longrightarrow> str_in err msg \<Longrightarrow> reports_failure out err (fail_json msg c s) s"
  by (simp add: fail_json_def reports_failure_def)

lemma reports_pip_fail [simp]:
  "reports_failure out err (pip_fail c (out0 @ out) (err0 @ err) s) s"
  unfolding pip_fail_def by (rule reports_fail_json) (rule fail_msg_out fail_msg_err)+

lemma reports_pip_fail0 [simp]: "reports_failure out err (pip_fail c out err s) s"
  unfolding pip_fail_def by (rule reports_fail_json) (rule fail_msg_out0 fail_msg_err0)+

lemma reports_help_failure [simp]:
  "reports_failure out err (fail_json (help_failure_msg t out err) c s) s"
  by (rule reports_fail_json) (simp_all add: help_failure_msg_holds)

lemma fwd_get_cmd_options: "fwd v w ab (get_cmd_options w c)"
  unfolding get_cmd_options_def Let_def
  by (intro fwd_basic) simp

lemma exempt_list: "exempt ab (list_call pip dir) rc out err"
  by (simp add: exempt_def is_list_query_def list_call_def endswith_def)

lemma fwd_get_packages: "fwd v w ab (get_packages w pip dir)"
  unfolding get_packages_def
  by (intro fwd_basic) (simp_all add: exempt_list)

lemma exempt_special:
  "exempt ab (plain_call (Argv [py, ''-c'', code])) rc out err"
  by (simp add: exempt_def is_special_query_def plain_call_def)

lemma fwd_get_package_info: "fwd v w ab (get_package_info w package env)"
  unfolding get_package_info_def Let_def
  by (intro fwd_basic) (simp_all add: exempt_special)

lemma fwd_setup_virtualenv: "fwd v w ab (setup_virtualenv w ps env dir out err)"
  unfolding setup_virtualenv_def Let_def
  by (intro fwd_basic fwd_get_cmd_options) simp_all

lemma fwd_ensure_virtualenv: "fwd v w ab (ensure_virtualenv w ps env dir)"
  unfolding ensure_virtualenv_def
  by (intro fwd_basic fwd_setup_virtualenv)

lemma fwd_special_packages: "fwd v w ab (special_packages w names env pkgs acc)"
  by (induction pkgs arbitrary: acc) (auto intro!: fwd_basic fwd_get_package_info)

lemma fwd_pip_check_mode:
  "fwd v w ab (pip_check_mode w ps env dir pip packages extra out err)"
  unfolding pip_check_mode_def Let_def
  by (intro fwd_basic fwd_get_packages fwd_special_packages)

lemma is_pip_action_cmd:
  "is_pip_action \<lparr>cmd = Argv (pip # state_map st @ rest), cwd = d, environ_update = u,
                   path_prefix = x\<rparr>"
  by (cases st) (simp_all add: is_pip_action_def state_map_def)

lemma fwd_pip_install:
  "fwd v w (state ps = Absent)
     (pip_install w ps dir pip (p # state_map st @ rest) prefix has_vcs venv_created out err)"
  unfolding pip_install_def Let_def
  apply (intro fwd_basic fwd_get_packages)
  apply (auto simp: exempt_def is_pip_action_cmd)
  done

lemma and_then_if:
  "and_then (if b then m1 else m2) f = (if b then and_then m1 f else and_then m2 f)"
  by simp

lemma and_then_case_option:
  "and_then (case x of None \<Rightarrow> m | Some y \<Rightarrow> g y) f =
     (case x of None \<Rightarrow> and_then m f | Some y \<Rightarrow> and_then (g y) f)"
  by (cases x) simp_all

lemma and_then_raise [simp]: "and_then (raise e) f = raise e"
  by (simp add: and_then_def raise_def)

lemma and_then_exit_json [simp]: "and_then (exit_json info) f = exit_json info"
  by (simp add: and_then_def exit_json_def)

lemma fwd_pip_body: "fwd v w (state ps = Absent) (pip_body w ps env)"
  unfolding pip_body_def Let_def
  apply (simp add: and_then_if and_then_case_option split del: if_split
      cong del: if_weak_cong option.case_cong_weak)
  apply (intro fwd_basic fwd_ensure_virtualenv fwd_pip_check_mode)
  apply (simp_all add: fwd_pip_install)
  done

lemma fwd_pipenv_install_pipenv: "fwd v w ab (pipenv_install_pipenv w present env out err)"
  unfolding pipenv_install_pipenv_def Let_def
  by (intro fwd_basic) simp_all

lemma fwd_pipenv_sync:
  assumes "truthy env \<Longrightarrow> v = Some (the env)"
  shows "fwd v w ab (pipenv_sync w ps env pip venv_created pipenv_installed out err)"
  unfolding pipenv_sync_def Let_def using assms
  by (intro fwd_basic) (simp_all add: fwd_set_environ)

lemma fwd_pipenv_body:
  assumes "truthy env \<Longrightarrow> v = Some (the env)"
  shows "fwd v w ab (pipenv_body w ps env)"
  unfolding pipenv_body_def Let_def
  by (intro fwd_basic fwd_ensure_virtualenv fwd_get_packages fwd_pipenv_install_pipenv
      fwd_pipenv_sync assms)


lemma forwarded_main:
  assumes "acts v (\<lambda>h ys r. \<forall>i<length ys. forwarded w ab (h @ take i ys) (ys ! i) r) m"
    and "trace (snd (m s)) = trace s @ ys" and "i < length ys"
    and "respond w (trace s @ take i ys) (ys ! i) = (rc, out, err)" and "rc \<noteq> 0"
    and "\<not> exempt ab (ys ! i) rc out err"
  shows "\<exists>msg k. fst (m s) = Inl (FailJson msg k) \<and> str_in out msg \<and> str_in err msg"
proof -
  from assms(1) obtain zs where z: "trace (snd (m s)) = trace s @ zs"
    "\<forall>i<length zs. forwarded w ab (trace s @ take i zs) (zs ! i) (ending (fst (m s)))"
    unfolding acts_def by blast
  with assms(2) have "zs = ys" by simp
  with z(2) assms(3) have "forwarded w ab (trace s @ take i ys) (ys ! i) (ending (fst (m s)))"
    by simp
  with assms(4,5,6) show ?thesis
    by (auto simp: forwarded_def ending_def split: sum.splits option.splits exit.splits)
qed






section \<open>The changed flag\<close>

lemma acts_and_then_val:
  assumes m: "acts v Q1 m" and f: "\<And>x s. fst (m s) = Inr x \<Longrightarrow> acts v Q2 (f x)"
    and stop: "\<And>h ys e. Q1 h ys (Some e) \<Longrightarrow> Q h ys (Some e)"
    and go: "\<And>h ys zs r. Q1 h ys None \<Longrightarrow> Q2 (h @ ys) zs r \<Longrightarrow> Q h (ys @ zs) r"
  shows "acts v Q (and_then m f)"
  unfolding acts_def
proof (intro allI)
  fix s
  from m obtain ys where a: "trace (snd (m s)) = trace s @ ys" "env_rel v s (snd (m s))"
    "Q1 (trace s) ys (ending (fst (m s)))"
    unfolding acts_def by blast
  show "\<exists>ys. trace (snd (and_then m f s)) = trace s @ ys \<and> env_rel v s (snd (and_then m f s)) \<and>
          Q (trace s) ys (ending (fst (and_then m f s)))"
  proof (cases "fst (m s)")
    case (Inl e)
    then have "and_then m f s = (Inl e, snd (m s))" by (rule and_then_Inl)
    moreover from a(3) Inl have "Q (trace s) ys (Some e)" by (simp add: ending_def stop)
    ultimately show ?thesis using a(1,2) by (auto simp: ending_def)
  next
    case (Inr x)
    then have eq: "and_then m f s = f x (snd (m s))" by (rule and_then_Inr)
    from f [OF Inr] obtain zs where b: "trace (snd (f x (snd (m s)))) = trace (snd (m s)) @ zs"
      "env_rel v (snd (m s)) (snd (f x (snd (m s))))"
      "Q2 (trace (snd (m s))) zs (ending (fst (f x (snd (m s)))))"
      unfolding acts_def by blast
    from a(3) Inr have "Q1 (trace s) ys None" by (simp add: ending_def)
    with b(3) a(1) have "Q (trace s) (ys @ zs) (ending (fst (f x (snd (m s)))))"
      by (simp add: go)
    moreover have "trace (snd (and_then m f s)) = trace s @ (ys @ zs)" using a b eq by simp
    moreover have "env_rel v s (snd (and_then m f s))"
      using env_rel_trans [OF a(2) b(2)] eq by simp
    ultimately show ?thesis using eq by auto
  qed
qed

text \<open>Sequencing, where the continuation is only asked about the values that the
  first action can yield.\<close>

lemma only_and_then_val:
  "only v C E m \<Longrightarrow> (\<And>x s. fst (m s) = Inr x \<Longrightarrow> only v C E (f x)) \<Longrightarrow>
   only v C E (and_then m f)"
  unfolding only_def by (erule acts_and_then_val) auto

text \<open>On a host whose answers do not depend on the commands run before, the listing
  yields the same value every time.\<close>

lemma get_packages_same:
  assumes "\<forall>h h' c. respond w h c = respond w h' c"
  shows "fst (get_packages w pip dir s) = fst (get_packages w pip dir s')"
proof -
  define g where "g = respond w []"
  have g: "respond w h c = g c" for h c using assms g_def by metis
  show ?thesis
    by (simp add: get_packages_def and_then_def run_command_def ret_def pip_fail_def
        fail_json_def g split: prod.splits)
qed

lemma only_if:
  "(b \<Longrightarrow> only v C E m1) \<Longrightarrow> (\<not> b \<Longrightarrow> only v C E m2) \<Longrightarrow> only v C E (if b then m1 else m2)"
  by simp

lemma pip_install_unchanged:
  assumes quiet: "\<forall>h c. \<not> str_in ''Successfully installed'' (fst (snd (respond w h c))) \<and>
                        \<not> str_in ''Successfully uninstalled'' (fst (snd (respond w h c)))"
    and same: "\<forall>h h' c. respond w h c = respond w h' c"
  shows "only v (\<lambda>c. True) unchanged_exit
           (pip_install w ps dir pip c prefix has_vcs False out err)"
  unfolding pip_install_def
  apply (rule only_and_then_val)
  subgoal by (auto intro!: only_intros simp: unchanged_exit_def split: prod.splits)
  subgoal premises b for before s
    apply (rule only_and_then_val)
    subgoal by (rule only_run_command) simp
    subgoal premises r for x s1
    proof -
      obtain rc out_pip err_pip where x: "x = (rc, out_pip, err_pip)" by (cases x) auto
      from r have "x = respond w (trace s1) \<lparr>cmd = Argv c, cwd = Some dir, environ_update = [],
                                               path_prefix = prefix\<rparr>"
        by (simp add: run_command_def)
      with quiet x have q: "\<not> str_in ''Successfully installed'' out_pip"
        "\<not> str_in ''Successfully uninstalled'' out_pip"
        by (metis fst_conv snd_conv)+
      have known: "b' = after"
        if "fst (get_packages w pip dir s') = Inr (x', after, y')" and "before = Some b'"
        for s' x' after y' b'
      proof -
        from b that(2) have t: "truthy (requirements ps) \<or> has_vcs"
          by (auto simp: ret_def split: if_splits)
        from get_packages_same [OF same, of pip dir s s'] that(1)
        have "fst (get_packages w pip dir s) = Inr (x', after, y')" by simp
        then have "and_then (get_packages w pip dir) (\<lambda>(x, out_freeze, y). ret (Some out_freeze)) s
            = (Inr (Some after), snd (get_packages w pip dir s))"
          by (simp add: and_then_Inr ret_def)
        with b that(2) t show ?thesis by simp
      qed
      have report: "only v (\<lambda>c. True) unchanged_exit
          (exit_json \<lparr>changed = chg \<or> False, exit_cmd = Some (Argv c),
                      stdout = Some (out @ out_pip), stderr = Some (err @ err_pip),
                      warnings = []\<rparr>)"
        if c: "fst ((if state ps = Absent then ret (str_in ''Successfully uninstalled'' out_pip)
           else case before of
                  None \<Rightarrow> ret (str_in ''Successfully installed'' out_pip)
                | Some before \<Rightarrow>
                    and_then (get_packages w pip dir)
                      (\<lambda>(x, out_freeze_after, y). ret (before \<noteq> out_freeze_after))) s2) = Inr chg"
        for chg s2
      proof -
        have "\<not> chg"
        proof (cases "state ps = Absent")
          case True
          with c q show ?thesis by (simp add: ret_def)
        next
          case False
          show ?thesis
          proof (cases before)
            case None
            with False c q show ?thesis by (simp add: ret_def)
          next
            case (Some b')
            show ?thesis
            proof (cases "fst (get_packages w pip dir s2)")
              case (Inl e)
              with False Some c show ?thesis by (simp add: and_then_Inl)
            next
              case (Inr res)
              obtain x' after y' where res: "res = (x', after, y')" by (cases res) auto
              from known [of s2 x' after y' b'] Inr res Some have "b' = after" by simp
              with False Some c Inr res show ?thesis by (simp add: and_then_Inr ret_def)
            qed
          qed
        qed
        then show ?thesis by (auto intro!: only_intros simp: unchanged_exit_def)
      qed
      show ?thesis
        unfolding x prod.case Let_def
        apply (rule only_if)
         apply (simp add: only_pip_fail unchanged_exit_def)
        apply (rule only_and_then_val)
         apply (auto intro!: only_intros simp: unchanged_exit_def
            split: prod.splits option.splits)[1]
        apply (erule report)
        done
    qed
    done
  done


lemma ensure_virtualenv_present:
  assumes "\<not> truthy env \<or> (\<forall>h. path_exists w h (path_join (the env) [''bin'', ''activate'']))"
  shows "ensure_virtualenv w ps env dir = ret (False, [], [])"
proof (cases "truthy env")
  case False
  then show ?thesis by (simp add: ensure_virtualenv_def)
next
  case True
  with assms have "os_path_exists w (path_join (the env) [''bin'', ''activate'']) = ret True"
    by (auto simp: os_path_exists_def ret_def)
  with True show ?thesis by (simp add: ensure_virtualenv_def)
qed

lemma pip_body_unchanged:
  assumes "\<not> check_mode ps"
    and "\<not> truthy env \<or> (\<forall>h. path_exists w h (path_join (the env) [''bin'', ''activate'']))"
    and "\<forall>h c. \<not> str_in ''Successfully installed'' (fst (snd (respond w h c))) \<and>
               \<not> str_in ''Successfully uninstalled'' (fst (snd (respond w h c)))"
    and "\<forall>h h' c. respond w h c = respond w h' c"
  shows "only v (\<lambda>c. True) unchanged_exit (pip_body w ps env)"
  unfolding pip_body_def Let_def ensure_virtualenv_present [OF assms(2)]
  using assms(1)
  by (auto intro!: only_intros pip_install_unchanged [OF assms(3,4)]
      simp: unchanged_exit_def split: option.splits)

text \<open>
  C1, as the code has it, for the pip module outside check mode.  On a host
  where no virtualenv has to be created, where no command prints
  \<open>Successfully installed\<close> or \<open>Successfully uninstalled\<close>, and whose answers
  are the same before and after every command, a run that ends with a report
  ends with \<open>changed=False\<close>.
\<close>

theorem pip_reports_unchanged:
  assumes "\<not> check_mode ps"
    and "\<not> truthy (virtualenv ps) \<or>
         (\<forall>h. path_exists w h (path_join (the (effective_env ps)) [''bin'', ''activate'']))"
    and "\<forall>h c. \<not> str_in ''Successfully installed'' (fst (snd (respond w h c))) \<and>
               \<not> str_in ''Successfully uninstalled'' (fst (snd (respond w h c)))"
    and "\<forall>h h' c. respond w h c = respond w h' c"
  shows "\<forall>info. fst (pip_main w ps s) = Inl (ExitJson info) \<longrightarrow> \<not> changed info"
proof -
  from assms(2) have "\<not> truthy (effective_env ps) \<or>
      (\<forall>h. path_exists w h (path_join (the (effective_env ps)) [''bin'', ''activate'']))"
    by (simp add: truthy_effective_env)
  from pip_body_unchanged [OF assms(1) this assms(3,4), of None]
  have "acts None (\<lambda>h ys r. list_all (\<lambda>c. True) ys \<and>
            (case r of Some e \<Rightarrow> unchanged_exit e | None \<Rightarrow> True)) (pip_main w ps)"
    unfolding only_def by (intro acts_pip_main) (simp_all add: unchanged_exit_def)
  then have "case ending (fst (pip_main w ps s)) of Some e \<Rightarrow> unchanged_exit e | None \<Rightarrow> True"
    unfolding acts_def by blast
  then show ?thesis by (auto simp: ending_def unchanged_exit_def)
qed

theorem pip_reports_unchanged_witness:
  "fst (pip_main example_host (example_params\<lparr>requirements := Some ''r.txt''\<rparr>) example_start)
     = Inl (ExitJson \<lparr>changed = False,
                      exit_cmd = Some (Argv [''/usr/bin/pip3'', ''install'', ''-r'', ''r.txt'']),
                      stdout = Some [], stderr = Some [], warnings = []\<rparr>) \<and>
   \<not> changed \<lparr>changed = False,
               exit_cmd = Some (Argv [''/usr/bin/pip3'', ''install'', ''-r'', ''r.txt'']),
               stdout = Some [], stderr = Some [], warnings = []\<rparr>"
proof -
  let ?p = "example_params\<lparr>requirements := Some ''r.txt''\<rparr>"
  let ?i = "\<lparr>changed = False,
             exit_cmd = Some (Argv [''/usr/bin/pip3'', ''install'', ''-r'', ''r.txt'']),
             stdout = Some [], stderr = Some [], warnings = []\<rparr>"
  have a: "\<not> check_mode ?p" "\<not> truthy (virtualenv ?p)"
    by (simp_all add: example_params_def truthy_def)
  have b: "\<forall>h c. \<not> str_in ''Successfully installed'' (fst (snd (respond example_host h c))) \<and>
               \<not> str_in ''Successfully uninstalled'' (fst (snd (respond example_host h c)))"
    by (simp add: example_host_def)
  have c: "\<forall>h h' c. respond example_host h c = respond example_host h' c"
    by (simp add: example_host_def)
  have d: "fst (pip_main example_host ?p example_start) = Inl (ExitJson ?i)"
    by code_simp
  from pip_reports_unchanged [OF a(1) _ b c, of example_start] a(2) d
  have "\<not> changed ?i" by blast
  with d show ?thesis by blast
qed

text \<open>
  The claim as written fails.  In check mode with a requirements file the
  pip module runs no command and reports \<open>changed=True\<close>; and on a host where
  every command succeeds and prints nothing, the pipenv module reports
  \<open>changed=True\<close>.
\<close>

theorem changed_flag_counterexample:
  "fst (pip_main example_host
          (example_params\<lparr>requirements := Some ''r.txt'', check_mode := True\<rparr>) example_start)
     = Inl (ExitJson \<lparr>changed = True, exit_cmd = None, stdout = None, stderr = None,
                       warnings = []\<rparr>) \<and>
   trace (snd (pip_main example_host
          (example_params\<lparr>requirements := Some ''r.txt'', check_mode := True\<rparr>) example_start))
     = [] \<and>
   fst (pipenv_main example_host example_params example_start)
     = Inl (ExitJson \<lparr>changed = True, exit_cmd = Some (Argv [''/usr/bin/pipenv'', ''sync'']),
                      stdout = Some [], stderr = Some [], warnings = []\<rparr>)"
  by code_simp

text \<open>Every report of the pipenv module says \<open>changed=True\<close>: \<open>has_changes\<close> always
  answers True.\<close>

lemma pipenv_always_changed:
  "fst (pipenv_main w ps s) = Inl (ExitJson info) \<Longrightarrow> changed info"
proof -
  let ?v = "if truthy (effective_env ps) then Some (the (effective_env ps)) else None"
  let ?E = "\<lambda>e. case e of ExitJson info \<Rightarrow> changed info | _ \<Rightarrow> True"
  have "only ?v (\<lambda>c. True) ?E (pipenv_body w ps (effective_env ps))"
    unfolding pipenv_body_def Let_def
    by (auto intro!: only_intros simp: venv_check_exit_def split: prod.splits)
  then have "acts ?v (\<lambda>h ys r. list_all (\<lambda>c. True) ys \<and> (case r of Some e \<Rightarrow> ?E e | None \<Rightarrow> True))
      (pipenv_main w ps)"
    unfolding only_def by (intro acts_pipenv_main) simp_all
  then have "case ending (fst (pipenv_main w ps s)) of Some e \<Rightarrow> ?E e | None \<Rightarrow> True"
    unfolding acts_def by blast
  moreover assume "fst (pipenv_main w ps s) = Inl (ExitJson info)"
  ultimately show ?thesis by (simp add: ending_def)
qed


end
